theory Spec2Isabelle
  imports Main "HOL-Library.Word"
begin

unbundle bit_operations_syntax

section \<open>Bytes and big-endian words\<close>

type_synonym byte = "8 word"

text \<open>\<open>folly::Endian::big\<close> applied to a \<open>uint32_t\<close> that is then copied byte by byte:
  the most significant byte comes first.\<close>

definition be32_bytes :: "32 word \<Rightarrow> byte list" where
  "be32_bytes w = [ucast (drop_bit 24 w), ucast (drop_bit 16 w), ucast (drop_bit 8 w), ucast w]"

text \<open>\<open>memcpy\<close> of four bytes followed by \<open>Endian::big\<close>; callers check that four bytes
  are there before they read.\<close>

definition be32_read :: "byte list \<Rightarrow> 32 word" where
  "be32_read bs = push_bit 24 (ucast (bs ! 0)) OR push_bit 16 (ucast (bs ! 1))
                  OR push_bit 8 (ucast (bs ! 2)) OR ucast (bs ! 3)"

section \<open>HgProxyHash\<close>

type_synonym ObjectId = "byte list"
type_synonym Hash20 = "byte list"
type_synonym RelativePath = "byte list"

text \<open>Modelled from the spec: the constants that Hash.h and HgProxyHash.h declare. A
  revision hash has 20 bytes, the tag of the embedded shape is \<open>0x01\<close> (spec, section
  3.1), and \<open>kZeroHash\<close> is the hash of twenty zero bytes.\<close>

definition RAW_SIZE :: nat where
  "RAW_SIZE = 20"

definition TYPE_HG_ID_NO_PATH :: byte where
  "TYPE_HG_ID_NO_PATH = 1"

definition kZeroHash :: Hash20 where
  "kZeroHash = replicate 20 0"

datatype hg_error =
    UnknownProxyHashType nat byte   \<comment> \<open>\<open>std::invalid_argument\<close> of tryParseEmbeddedProxyHash\<close>
  | UnknownProxyHash                \<comment> \<open>\<open>extractValue\<close> on a missing store entry\<close>
  | TooShort nat                    \<comment> \<open>\<open>std::length_error\<close>: fewer than 24 bytes\<close>
  | InconsistentPathLength          \<comment> \<open>\<open>std::length_error\<close>: declared length differs\<close>
  | PathTooLarge                    \<comment> \<open>the \<open>XCHECK\<close> of serialize\<close>
  | ValueTooShort                   \<comment> \<open>the \<open>XDCHECK_GE\<close> of the accessors\<close>

text \<open>The class holds one string, \<open>value_\<close> in the source.\<close>

record HgProxyHash =
  proxy_value :: "byte list"

text \<open>Modelled from the spec: the local key-value store (\<open>LocalStore\<close>, \<open>StoreResult\<close> and
  \<open>WriteBatch\<close> are declared outside the sources at hand). The store maps the keys of the
  \<open>HgProxyHashFamily\<close> key space to optional bytes; \<open>gets\<close> records every key that was
  looked up, in order. A \<open>StoreResult\<close> is the optional value, and \<open>extractValue\<close> throws
  on a missing one.\<close>

record LocalStore =
  kv :: "ObjectId \<rightharpoonup> byte list"
  gets :: "ObjectId list"

type_synonym StoreResult = "byte list option"
type_synonym WriteBatch = "(ObjectId \<times> byte list) list"

definition LocalStore_get :: "LocalStore \<Rightarrow> ObjectId \<Rightarrow> StoreResult \<times> LocalStore" where
  "LocalStore_get store key = (kv store key, store\<lparr>gets := gets store @ [key]\<rparr>)"

definition extractValue :: "StoreResult \<Rightarrow> hg_error + byte list" where
  "extractValue r = (case r of None \<Rightarrow> Inl UnknownProxyHash | Some v \<Rightarrow> Inr v)"

definition WriteBatch_put :: "WriteBatch \<Rightarrow> ObjectId \<Rightarrow> byte list \<Rightarrow> WriteBatch" where
  "WriteBatch_put batch key v = batch @ [(key, v)]"

definition serialize :: "RelativePath \<Rightarrow> Hash20 \<Rightarrow> hg_error + byte list" where
  "serialize path hgRevHash =
     (let pathLength = length path in
      if \<not> pathLength \<le> 4294967295 then Inl PathTooLarge
      else Inr (hgRevHash @ be32_bytes (of_nat pathLength) @ path))"

text \<open>\<open>ObjectId::sha1\<close> is a library function; the development takes it as the parameter
  \<open>sha1\<close>, and the theorems say what they assume of it.\<close>

definition prepareToStoreLegacy ::
  "(byte list \<Rightarrow> ObjectId) \<Rightarrow> RelativePath \<Rightarrow> Hash20 \<Rightarrow> hg_error + (ObjectId \<times> byte list)" where
  "prepareToStoreLegacy sha1 path hgRevHash =
     (case serialize path hgRevHash of
        Inl e \<Rightarrow> Inl e
      | Inr buf \<Rightarrow> Inr (sha1 buf, buf))"

text \<open>The constructor \<open>HgProxyHash(path, hgRevHash)\<close>.\<close>

definition HgProxyHash_of_path ::
  "(byte list \<Rightarrow> ObjectId) \<Rightarrow> RelativePath \<Rightarrow> Hash20 \<Rightarrow> hg_error + HgProxyHash" where
  "HgProxyHash_of_path sha1 path hgRevHash =
     (case prepareToStoreLegacy sha1 path hgRevHash of
        Inl e \<Rightarrow> Inl e
      | Inr (hash, buf) \<Rightarrow> Inr \<lparr>proxy_value = buf\<rparr>)"

definition validate :: "HgProxyHash \<Rightarrow> ObjectId \<Rightarrow> hg_error + unit" where
  "validate ph edenBlobHash =
     (let infoBytes = proxy_value ph in
      if length infoBytes < RAW_SIZE + 4 then Inl (TooShort (length infoBytes))
      else
        let infoBytes1 = drop RAW_SIZE infoBytes;
            pathLength = be32_read infoBytes1;
            infoBytes2 = drop 4 infoBytes1
        in if length infoBytes2 \<noteq> unat pathLength then Inl InconsistentPathLength
           else Inr ())"

text \<open>Modelled from the spec: the constructor \<open>HgProxyHash(edenBlobHash, value)\<close> on a
  string, which HgProxyHash.h defines. By the spec (section 4.1) a value that was looked up
  is validated; the constructor does what its sibling on a \<open>StoreResult\<close>, below, does
  after the extraction: it keeps the value and validates it.\<close>

definition HgProxyHash_of_value :: "ObjectId \<Rightarrow> byte list \<Rightarrow> hg_error + HgProxyHash" where
  "HgProxyHash_of_value edenBlobHash v =
     (let ph = \<lparr>proxy_value = v\<rparr> in
      case validate ph edenBlobHash of Inl e \<Rightarrow> Inl e | Inr _ \<Rightarrow> Inr ph)"

text \<open>The constructor \<open>HgProxyHash(edenBlobHash, infoResult, context)\<close> used by getBatch.\<close>

definition HgProxyHash_of_result :: "ObjectId \<Rightarrow> StoreResult \<Rightarrow> hg_error + HgProxyHash" where
  "HgProxyHash_of_result edenBlobHash infoResult =
     (case extractValue infoResult of
        Inl e \<Rightarrow> Inl e
      | Inr v \<Rightarrow> HgProxyHash_of_value edenBlobHash v)"

definition tryParseEmbeddedProxyHash ::
  "(byte list \<Rightarrow> ObjectId) \<Rightarrow> ObjectId \<Rightarrow> hg_error + HgProxyHash option" where
  "tryParseEmbeddedProxyHash sha1 edenObjectId =
     (if length edenObjectId > RAW_SIZE then
        let type = edenObjectId ! 0 in
        if length edenObjectId = RAW_SIZE + 1 \<and> type = TYPE_HG_ID_NO_PATH then
          let hash = take RAW_SIZE (drop 1 edenObjectId) in
          (case HgProxyHash_of_path sha1 [] hash of
             Inl e \<Rightarrow> Inl e
           | Inr ph \<Rightarrow> Inr (Some ph))
        else Inl (UnknownProxyHashType (length edenObjectId) type)
      else Inr None)"

definition load ::
  "(byte list \<Rightarrow> ObjectId) \<Rightarrow> LocalStore \<Rightarrow> ObjectId \<Rightarrow> (hg_error + HgProxyHash) \<times> LocalStore" where
  "load sha1 store edenObjectId =
     (case tryParseEmbeddedProxyHash sha1 edenObjectId of
        Inl e \<Rightarrow> (Inl e, store)
      | Inr (Some embedded) \<Rightarrow> (Inr embedded, store)
      | Inr None \<Rightarrow>
          let (infoResult, store') = LocalStore_get store edenObjectId in
          (case extractValue infoResult of
             Inl e \<Rightarrow> (Inl e, store')
           | Inr v \<Rightarrow> (HgProxyHash_of_value edenObjectId v, store')))"

definition makeEmbeddedProxyHash :: "Hash20 \<Rightarrow> ObjectId" where
  "makeEmbeddedProxyHash hgRevHash = TYPE_HG_ID_NO_PATH # hgRevHash"

definition storeLegacy :: "ObjectId \<times> byte list \<Rightarrow> WriteBatch \<Rightarrow> WriteBatch" where
  "storeLegacy computedPair writeBatch =
     WriteBatch_put writeBatch (fst computedPair) (snd computedPair)"

text \<open>\<open>HgProxyHash::store\<close>; the result carries the object id and the write batch as the
  call leaves it.\<close>

definition store ::
  "(byte list \<Rightarrow> ObjectId) \<Rightarrow> RelativePath \<Rightarrow> Hash20 \<Rightarrow> WriteBatch option
     \<Rightarrow> hg_error + (ObjectId \<times> WriteBatch option)" where
  "store sha1 path hgRevHash writeBatch =
     (case writeBatch of
        None \<Rightarrow> Inr (makeEmbeddedProxyHash hgRevHash, None)
      | Some batch \<Rightarrow>
          (case prepareToStoreLegacy sha1 path hgRevHash of
             Inl e \<Rightarrow> Inl e
           | Inr computedPair \<Rightarrow> Inr (fst computedPair, Some (storeLegacy computedPair batch))))"

definition path :: "HgProxyHash \<Rightarrow> hg_error + RelativePath" where
  "path ph =
     (if proxy_value ph = [] then Inr []
      else if \<not> length (proxy_value ph) \<ge> RAW_SIZE + 4 then Inl ValueTooShort
      else Inr (drop (RAW_SIZE + 4) (proxy_value ph)))"

definition byteHash :: "HgProxyHash \<Rightarrow> hg_error + byte list" where
  "byteHash ph =
     (if proxy_value ph = [] then Inr kZeroHash
      else if \<not> length (proxy_value ph) \<ge> RAW_SIZE then Inl ValueTooShort
      else Inr (take RAW_SIZE (proxy_value ph)))"

definition revHash :: "HgProxyHash \<Rightarrow> hg_error + Hash20" where
  "revHash ph = byteHash ph"

section \<open>TakeoverData\<close>

text \<open>Modelled from the spec: the data that TakeoverData.h declares (spec, section 3.4).
  A \<open>folly::File\<close> is an open descriptor, or none (default-constructed or moved from); a
  path is the string it holds.\<close>

type_synonym File = "nat option"
type_synonym AbsolutePath = "byte list"

record 'im MountInfo =
  mountPath :: AbsolutePath
  stateDirectory :: AbsolutePath
  bindMounts :: "AbsolutePath list"
  fuseFD :: File
  connInfo :: "byte list"   \<comment> \<open>the bytes of the \<open>fuse_init_out\<close> struct\<close>
  inodeMap :: 'im

record 'im TakeoverData =
  lockFile :: File
  thriftSocket :: File
  mountPoints :: "'im MountInfo list"

text \<open>\<open>UnixSocket::Message\<close>: the body and the ancillary descriptors.\<close>

record Message =
  data :: "byte list"
  files :: "File list"

text \<open>The Thrift structures \<open>SerializedMountInfo\<close> and the union \<open>SerializedTakeoverData\<close>.\<close>

record 'im SerializedMountInfo =
  s_mountPath :: "byte list"
  s_stateDirectory :: "byte list"
  s_bindMountPaths :: "byte list list"
  s_connInfo :: "byte list"
  s_inodeMap :: 'im

datatype 'im SerializedTakeoverData =
    mounts "'im SerializedMountInfo list"
  | errorReason "byte list"
  | EMPTY

text \<open>Modelled from the spec: what TakeoverData.cpp uses and other files define. The four
  capability flags of \<open>TakeoverCapabilities\<close> (the spec speaks of a capability bitmask and
  gives no values), the size of \<open>fuse_init_out\<close>, the check the constructor of
  \<open>AbsolutePath\<close> makes on a string, and the Thrift compact codec for the takeover union
  and for the inode map (\<open>None\<close>: the decoder throws).\<close>

record 'im TakeoverEnv =
  CUSTOM_SERIALIZATION :: "64 word"
  FUSE :: "64 word"
  THRIFT_SERIALIZATION :: "64 word"
  PING :: "64 word"
  sizeof_fuse_init_out :: nat
  validAbsolutePath :: "byte list \<Rightarrow> bool"
  compactSerialize :: "'im SerializedTakeoverData \<Rightarrow> byte list"
  compactDeserialize :: "byte list \<Rightarrow> 'im SerializedTakeoverData option"
  compactSerializeInodeMap :: "'im \<Rightarrow> byte list"
  compactDeserializeInodeMap :: "byte list \<Rightarrow> 'im option"

text \<open>Modelled from the spec: the protocol versions and the message types of the custom
  dialect, declared in TakeoverData.h (spec, section 4.4).\<close>

definition kTakeoverProtocolVersionNeverSupported :: int where
  "kTakeoverProtocolVersionNeverSupported = 0"

definition kTakeoverProtocolVersionOne :: int where
  "kTakeoverProtocolVersionOne = 1"

definition kTakeoverProtocolVersionThree :: int where
  "kTakeoverProtocolVersionThree = 3"

definition kTakeoverProtocolVersionFour :: int where
  "kTakeoverProtocolVersionFour = 4"

definition MessageType_ERROR :: "32 word" where
  "MessageType_ERROR = 1"

definition MessageType_MOUNTS :: "32 word" where
  "MessageType_MOUNTS = 2"

definition MessageType_PING :: "32 word" where
  "MessageType_PING = 3"

datatype takeover_error =
    UnsupportedVersion int
  | UnsupportedCapabilities "64 word"
  | UnsupportedFormat "64 word"
  | UnrecognizedResponse "32 word"
  | UnrecognizedCapability "64 word"
  | UnknownMessageType "32 word"
  | RemoteError "byte list"
  | FdCountMismatch nat nat
  | CursorOutOfRange
  | InvalidPath "byte list"
  | ThriftDecodeError
  | ConnInfoTooShort

definition kSupportedTakeoverVersions :: "int set" where
  "kSupportedTakeoverVersions =
     {kTakeoverProtocolVersionOne, kTakeoverProtocolVersionThree, kTakeoverProtocolVersionFour}"

text \<open>The loop of computeCompatibleVersion over the versions in the order of the
  \<open>std::set\<close>, ascending.\<close>

fun computeCompatibleVersion_loop :: "int list \<Rightarrow> int set \<Rightarrow> int option \<Rightarrow> int option" where
  "computeCompatibleVersion_loop [] supported best = best"
| "computeCompatibleVersion_loop (version # rest) supported best =
     (if best \<noteq> None \<and> the best > version then computeCompatibleVersion_loop rest supported best
      else if version \<notin> supported then computeCompatibleVersion_loop rest supported best
      else computeCompatibleVersion_loop rest supported (Some version))"

definition computeCompatibleVersion :: "int set \<Rightarrow> int set \<Rightarrow> int option" where
  "computeCompatibleVersion versions supported =
     computeCompatibleVersion_loop (sorted_list_of_set versions) supported None"

definition versionToCapabilites :: "'im TakeoverEnv \<Rightarrow> int \<Rightarrow> takeover_error + 64 word" where
  "versionToCapabilites E version =
     (if version = kTakeoverProtocolVersionNeverSupported then Inr 0
      else if version = kTakeoverProtocolVersionOne then
        Inr (CUSTOM_SERIALIZATION E OR FUSE E)
      else if version = kTakeoverProtocolVersionThree then
        Inr (FUSE E OR THRIFT_SERIALIZATION E)
      else if version = kTakeoverProtocolVersionFour then
        Inr (FUSE E OR THRIFT_SERIALIZATION E OR PING E)
      else Inl (UnsupportedVersion version))"

definition capabilitesToVersion :: "'im TakeoverEnv \<Rightarrow> 64 word \<Rightarrow> takeover_error + int" where
  "capabilitesToVersion E capabilities =
     (if capabilities = 0 then Inr kTakeoverProtocolVersionNeverSupported
      else if capabilities = (CUSTOM_SERIALIZATION E OR FUSE E) then
        Inr kTakeoverProtocolVersionOne
      else if capabilities = (FUSE E OR THRIFT_SERIALIZATION E) then
        Inr kTakeoverProtocolVersionThree
      else if capabilities = (FUSE E OR THRIFT_SERIALIZATION E OR PING E) then
        Inr kTakeoverProtocolVersionFour
      else Inl (UnsupportedCapabilities capabilities))"

subsection \<open>Writing\<close>

text \<open>\<open>writeBE<uint32_t>\<close> of a size converts the \<open>size_t\<close> to 32 bits first.\<close>

definition writeBE32_size :: "nat \<Rightarrow> byte list" where
  "writeBE32_size n = be32_bytes (of_nat n)"

definition serializeCustom_string :: "byte list \<Rightarrow> byte list" where
  "serializeCustom_string s = writeBE32_size (length s) @ s"

definition serializeCustom_mount :: "'im TakeoverEnv \<Rightarrow> 'im MountInfo \<Rightarrow> byte list" where
  "serializeCustom_mount E mount =
     serializeCustom_string (mountPath mount)
     @ serializeCustom_string (stateDirectory mount)
     @ writeBE32_size (length (bindMounts mount))
     @ concat (map serializeCustom_string (bindMounts mount))
     @ connInfo mount
     @ be32_bytes 0
     @ serializeCustom_string (compactSerializeInodeMap E (inodeMap mount))"

definition serializeCustom :: "'im TakeoverEnv \<Rightarrow> 'im TakeoverData \<Rightarrow> byte list" where
  "serializeCustom E d =
     be32_bytes MessageType_MOUNTS
     @ writeBE32_size (length (mountPoints d))
     @ concat (map (serializeCustom_mount E) (mountPoints d))"

definition toSerializedMount :: "'im MountInfo \<Rightarrow> 'im SerializedMountInfo" where
  "toSerializedMount mount =
     \<lparr>s_mountPath = mountPath mount,
      s_stateDirectory = stateDirectory mount,
      s_bindMountPaths = bindMounts mount,
      s_connInfo = connInfo mount,
      s_inodeMap = inodeMap mount\<rparr>"

definition serializeThrift ::
  "'im TakeoverEnv \<Rightarrow> 64 word \<Rightarrow> 'im TakeoverData \<Rightarrow> takeover_error + byte list" where
  "serializeThrift E protocolCapabilities d =
     (case capabilitesToVersion E protocolCapabilities of
        Inl e \<Rightarrow> Inl e
      | Inr version \<Rightarrow>
          let versionToAdvertize =
                (if version = kTakeoverProtocolVersionFour then kTakeoverProtocolVersionThree
                 else version);
              serializedMounts = map toSerializedMount (mountPoints d)
          in Inr (be32_bytes (of_int versionToAdvertize)
                  @ compactSerialize E (mounts serializedMounts)))"

text \<open>\<open>serialize(protocolCapabilities)\<close>, the body.\<close>

definition serialize_body ::
  "'im TakeoverEnv \<Rightarrow> 64 word \<Rightarrow> 'im TakeoverData \<Rightarrow> takeover_error + byte list" where
  "serialize_body E protocolCapabilities d =
     (let serializationMethod =
            protocolCapabilities AND (CUSTOM_SERIALIZATION E OR THRIFT_SERIALIZATION E)
      in if serializationMethod = CUSTOM_SERIALIZATION E then Inr (serializeCustom E d)
         else if serializationMethod = THRIFT_SERIALIZATION E then
           serializeThrift E protocolCapabilities d
         else Inl (UnsupportedFormat protocolCapabilities))"

text \<open>\<open>serialize(protocolCapabilities, msg)\<close>. The descriptors are moved into the message,
  which leaves the files of the takeover data empty.\<close>

definition serialize_msg ::
  "'im TakeoverEnv \<Rightarrow> 64 word \<Rightarrow> 'im TakeoverData \<Rightarrow> Message
     \<Rightarrow> takeover_error + ('im TakeoverData \<times> Message)" where
  "serialize_msg E protocolCapabilities d msg =
     (case serialize_body E protocolCapabilities d of
        Inl e \<Rightarrow> Inl e
      | Inr body \<Rightarrow>
          Inr (d\<lparr>lockFile := None, thriftSocket := None,
                 mountPoints := map (\<lambda>mount. mount\<lparr>fuseFD := None\<rparr>) (mountPoints d)\<rparr>,
               msg\<lparr>data := body,
                   files := files msg @ [lockFile d, thriftSocket d]
                            @ map fuseFD (mountPoints d)\<rparr>))"

subsection \<open>Reading\<close>

definition bindE :: "('e + 'a) \<Rightarrow> ('a \<Rightarrow> 'e + 'b) \<Rightarrow> 'e + 'b" where
  "bindE m f = (case m of Inl e \<Rightarrow> Inl e | Inr x \<Rightarrow> f x)"

text \<open>A \<open>folly::io::Cursor\<close> is the list of the bytes not read yet; reading past the end
  throws \<open>std::out_of_range\<close>.\<close>

definition readBE32 :: "byte list \<Rightarrow> takeover_error + (32 word \<times> byte list)" where
  "readBE32 cursor =
     (if length cursor < 4 then Inl CursorOutOfRange
      else Inr (be32_read cursor, drop 4 cursor))"

definition readFixedString :: "nat \<Rightarrow> byte list \<Rightarrow> takeover_error + (byte list \<times> byte list)" where
  "readFixedString len cursor =
     (if length cursor < len then Inl CursorOutOfRange
      else Inr (take len cursor, drop len cursor))"

definition makeAbsolutePath :: "'im TakeoverEnv \<Rightarrow> byte list \<Rightarrow> takeover_error + AbsolutePath" where
  "makeAbsolutePath E s = (if validAbsolutePath E s then Inr s else Inl (InvalidPath s))"

fun readBindMounts ::
  "'im TakeoverEnv \<Rightarrow> nat \<Rightarrow> byte list \<Rightarrow> takeover_error + (AbsolutePath list \<times> byte list)" where
  "readBindMounts E 0 cursor = Inr ([], cursor)"
| "readBindMounts E (Suc n) cursor =
     bindE (readBE32 cursor) (\<lambda>(bindPathLength, cursor).
     bindE (readFixedString (unat bindPathLength) cursor) (\<lambda>(bindPath, cursor).
     bindE (makeAbsolutePath E bindPath) (\<lambda>p.
     bindE (readBindMounts E n cursor) (\<lambda>(ps, cursor).
     Inr (p # ps, cursor)))))"

definition readMount ::
  "'im TakeoverEnv \<Rightarrow> byte list \<Rightarrow> takeover_error + ('im MountInfo \<times> byte list)" where
  "readMount E cursor =
     bindE (readBE32 cursor) (\<lambda>(pathLength, cursor).
     bindE (readFixedString (unat pathLength) cursor) (\<lambda>(mountPath', cursor).
     bindE (readBE32 cursor) (\<lambda>(clientPathLength, cursor).
     bindE (readFixedString (unat clientPathLength) cursor) (\<lambda>(stateDirectory', cursor).
     bindE (readBE32 cursor) (\<lambda>(numBindMounts, cursor).
     bindE (readBindMounts E (unat numBindMounts) cursor) (\<lambda>(bindMounts', cursor).
     bindE (readFixedString (sizeof_fuse_init_out E) cursor) (\<lambda>(connInfo', cursor).
     bindE (readBE32 cursor) (\<lambda>(fileHandleMapLength, cursor).
     bindE (readFixedString (unat fileHandleMapLength) cursor) (\<lambda>(_, cursor).
     bindE (readBE32 cursor) (\<lambda>(inodeMapLength, cursor).
     bindE (readFixedString (unat inodeMapLength) cursor) (\<lambda>(inodeMapBuffer, cursor).
     (case compactDeserializeInodeMap E inodeMapBuffer of
        None \<Rightarrow> Inl ThriftDecodeError
      | Some inodeMap' \<Rightarrow>
     bindE (makeAbsolutePath E mountPath') (\<lambda>mp.
     bindE (makeAbsolutePath E stateDirectory') (\<lambda>sd.
     Inr (\<lparr>mountPath = mp, stateDirectory = sd, bindMounts = bindMounts',
           fuseFD = None, connInfo = connInfo', inodeMap = inodeMap'\<rparr>, cursor)))))))))))))))"

fun readMounts ::
  "'im TakeoverEnv \<Rightarrow> nat \<Rightarrow> byte list \<Rightarrow> takeover_error + ('im MountInfo list \<times> byte list)" where
  "readMounts E 0 cursor = Inr ([], cursor)"
| "readMounts E (Suc n) cursor =
     bindE (readMount E cursor) (\<lambda>(m, cursor).
     bindE (readMounts E n cursor) (\<lambda>(ms, cursor).
     Inr (m # ms, cursor)))"

definition deserializeCustom :: "'im TakeoverEnv \<Rightarrow> byte list \<Rightarrow> takeover_error + 'im TakeoverData" where
  "deserializeCustom E buf =
     bindE (readBE32 buf) (\<lambda>(messageType, cursor).
     if messageType \<noteq> MessageType_ERROR \<and> messageType \<noteq> MessageType_MOUNTS then
       Inl (UnknownMessageType messageType)
     else if messageType = MessageType_ERROR then
       bindE (readBE32 cursor) (\<lambda>(errorTypeLength, cursor).
       bindE (readFixedString (unat errorTypeLength) cursor) (\<lambda>(errorType, cursor).
       bindE (readBE32 cursor) (\<lambda>(errorMessageLength, cursor).
       bindE (readFixedString (unat errorMessageLength) cursor) (\<lambda>(errorMessage, cursor).
       Inl (RemoteError (errorType @ [58, 32] @ errorMessage))))))
     else if messageType \<noteq> MessageType_MOUNTS then
       Inl (UnknownMessageType messageType)
     else
       bindE (readBE32 cursor) (\<lambda>(numMounts, cursor).
       bindE (readMounts E (unat numMounts) cursor) (\<lambda>(ms, cursor).
       Inr \<lparr>lockFile = None, thriftSocket = None, mountPoints = ms\<rparr>)))"

fun makeAbsolutePaths ::
  "'im TakeoverEnv \<Rightarrow> byte list list \<Rightarrow> takeover_error + AbsolutePath list" where
  "makeAbsolutePaths E [] = Inr []"
| "makeAbsolutePaths E (s # rest) =
     bindE (makeAbsolutePath E s) (\<lambda>p.
     bindE (makeAbsolutePaths E rest) (\<lambda>ps. Inr (p # ps)))"

text \<open>One round of the loop of deserializeThrift. The \<open>fuse_init_out\<close> is copied out of
  the string's data through a cast pointer; a string shorter than the struct would be read
  past its end, which the model reports as an error.\<close>

definition fromSerializedMount ::
  "'im TakeoverEnv \<Rightarrow> 'im SerializedMountInfo \<Rightarrow> takeover_error + 'im MountInfo" where
  "fromSerializedMount E serializedMount =
     (if length (s_connInfo serializedMount) < sizeof_fuse_init_out E then Inl ConnInfoTooShort
      else
        bindE (makeAbsolutePaths E (s_bindMountPaths serializedMount)) (\<lambda>bindMounts'.
        bindE (makeAbsolutePath E (s_mountPath serializedMount)) (\<lambda>mp.
        bindE (makeAbsolutePath E (s_stateDirectory serializedMount)) (\<lambda>sd.
        Inr \<lparr>mountPath = mp, stateDirectory = sd, bindMounts = bindMounts', fuseFD = None,
             connInfo = take (sizeof_fuse_init_out E) (s_connInfo serializedMount),
             inodeMap = s_inodeMap serializedMount\<rparr>))))"

fun fromSerializedMounts ::
  "'im TakeoverEnv \<Rightarrow> 'im SerializedMountInfo list \<Rightarrow> takeover_error + 'im MountInfo list" where
  "fromSerializedMounts E [] = Inr []"
| "fromSerializedMounts E (sm # rest) =
     bindE (fromSerializedMount E sm) (\<lambda>m.
     bindE (fromSerializedMounts E rest) (\<lambda>ms. Inr (m # ms)))"

definition deserializeThrift :: "'im TakeoverEnv \<Rightarrow> byte list \<Rightarrow> takeover_error + 'im TakeoverData" where
  "deserializeThrift E buf =
     (case compactDeserialize E buf of
        None \<Rightarrow> Inl ThriftDecodeError
      | Some (errorReason reason) \<Rightarrow> Inl (RemoteError reason)
      | Some (mounts serializedMounts) \<Rightarrow>
          bindE (fromSerializedMounts E serializedMounts) (\<lambda>ms.
          Inr \<lparr>lockFile = None, thriftSocket = None, mountPoints = ms\<rparr>)
      | Some EMPTY \<Rightarrow> Inr \<lparr>lockFile = None, thriftSocket = None, mountPoints = []\<rparr>)"

text \<open>getProtocolVersion returns the version and the buffer as it leaves it: trimmed by
  the version word for the Thrift dialect, untouched for the custom one.\<close>

definition getProtocolVersion :: "byte list \<Rightarrow> takeover_error + (int \<times> byte list)" where
  "getProtocolVersion buf =
     bindE (readBE32 buf) (\<lambda>(messageType, _).
     if messageType = MessageType_ERROR \<or> messageType = MessageType_MOUNTS then
       Inr (kTakeoverProtocolVersionOne, buf)
     else if messageType = of_int kTakeoverProtocolVersionThree
           \<or> messageType = of_int kTakeoverProtocolVersionFour then
       Inr (sint messageType, drop 4 buf)
     else Inl (UnrecognizedResponse messageType))"

text \<open>\<open>deserialize(protocolCapabilities, buf)\<close>.\<close>

definition deserialize_body ::
  "'im TakeoverEnv \<Rightarrow> 64 word \<Rightarrow> byte list \<Rightarrow> takeover_error + 'im TakeoverData" where
  "deserialize_body E protocolCapabilities buf =
     (let serializationMethod =
            protocolCapabilities AND (CUSTOM_SERIALIZATION E OR THRIFT_SERIALIZATION E)
      in if serializationMethod = CUSTOM_SERIALIZATION E then deserializeCustom E buf
         else if serializationMethod = THRIFT_SERIALIZATION E then deserializeThrift E buf
         else Inl (UnrecognizedCapability protocolCapabilities))"

definition mountPointFilesOffset :: nat where
  "mountPointFilesOffset = 2"

text \<open>\<open>deserialize(msg)\<close>.\<close>

definition deserialize_msg :: "'im TakeoverEnv \<Rightarrow> Message \<Rightarrow> takeover_error + 'im TakeoverData" where
  "deserialize_msg E msg =
     bindE (getProtocolVersion (data msg)) (\<lambda>(protocolVersion, buf).
     bindE (versionToCapabilites E protocolVersion) (\<lambda>capabilities.
     bindE (deserialize_body E capabilities buf) (\<lambda>d.
     if length (mountPoints d) + mountPointFilesOffset \<noteq> length (files msg) then
       Inl (FdCountMismatch (length (mountPoints d)) (length (files msg)))
     else
       Inr (d\<lparr>lockFile := files msg ! 0,
              thriftSocket := files msg ! 1,
              mountPoints :=
                map (\<lambda>(n, mountInfo). mountInfo\<lparr>fuseFD := files msg ! (n + mountPointFilesOffset)\<rparr>)
                    (enumerate 0 (mountPoints d))\<rparr>))))"

subsection \<open>Well-formed inputs\<close>

text \<open>A mount as the types of the source guarantee it: every path passed the check of
  its constructor, and the connection info has the size of the struct.\<close>

definition wf_mount :: "'im TakeoverEnv \<Rightarrow> 'im MountInfo \<Rightarrow> bool" where
  "wf_mount E mount =
     (validAbsolutePath E (mountPath mount) \<and> validAbsolutePath E (stateDirectory mount)
      \<and> list_all (validAbsolutePath E) (bindMounts mount)
      \<and> length (connInfo mount) = sizeof_fuse_init_out E)"

text \<open>The capability flags are bit flags: none is zero and no two share a bit.\<close>

definition capability_flags_disjoint :: "'im TakeoverEnv \<Rightarrow> bool" where
  "capability_flags_disjoint E =
     (CUSTOM_SERIALIZATION E \<noteq> 0 \<and> FUSE E \<noteq> 0 \<and> THRIFT_SERIALIZATION E \<noteq> 0 \<and> PING E \<noteq> 0
      \<and> CUSTOM_SERIALIZATION E AND FUSE E = 0
      \<and> CUSTOM_SERIALIZATION E AND THRIFT_SERIALIZATION E = 0
      \<and> CUSTOM_SERIALIZATION E AND PING E = 0
      \<and> FUSE E AND THRIFT_SERIALIZATION E = 0
      \<and> FUSE E AND PING E = 0
      \<and> THRIFT_SERIALIZATION E AND PING E = 0)"

section \<open>FileInode\<close>

text \<open>
  The model covers the state of one file inode, as the lock of \<open>FileInode::state_\<close> guards
  it, together with the inode's file in the overlay. Every function below with a name of
  the source is one stretch of code that runs with the lock held, from taking it to
  releasing it; a wait for a blob or for a size ends one stretch and starts another. What
  the code does outside this state (timestamps, the journal, access logging, the note to
  the parent directory, fulfilling the loading promise) is left out. \<open>XDCHECK\<close> is modelled
  as the check it is in a debug build. The code is the one built for systems other than
  Windows.
\<close>

datatype Tag = BLOB_NOT_LOADING | BLOB_LOADING | MATERIALIZED_IN_OVERLAY

record Blob =
  blobHash :: ObjectId
  blobContents :: "byte list"

definition Blob_getSize :: "Blob \<Rightarrow> nat" where
  "Blob_getSize blob = length (blobContents blob)"

text \<open>Modelled from the spec: \<open>NonMaterializedState\<close> is declared in FileInode.h (spec,
  section 3.2): an object id and a size. FileInode.cpp copies the size into \<open>st_size\<close>
  and assigns a \<open>uint64_t\<close> to it, so it is a 64-bit integer, and one value of that
  type, \<open>kUnknownSize\<close>, stands for a size that is not known. The sources at hand do not
  show which value it is: every function that needs it takes it as the parameter
  \<open>kUnknownSize\<close>.\<close>

record NonMaterializedState =
  nm_hash :: ObjectId
  nm_size :: "64 word"

text \<open>Modelled from the spec: \<open>CoverageSet\<close> (spec, section 3.3), held as the union of its
  intervals, the set of the offsets covered.\<close>

type_synonym CoverageSet = "nat set"

definition CoverageSet_add :: "CoverageSet \<Rightarrow> nat \<Rightarrow> nat \<Rightarrow> CoverageSet" where
  "CoverageSet_add cs a b = cs \<union> {a..<b}"

definition CoverageSet_covers :: "CoverageSet \<Rightarrow> nat \<Rightarrow> nat \<Rightarrow> bool" where
  "CoverageSet_covers cs a b = ({a..<b} \<subseteq> cs)"

definition CoverageSet_clear :: CoverageSet where
  "CoverageSet_clear = {}"

definition CoverageSet_empty :: "CoverageSet \<Rightarrow> bool" where
  "CoverageSet_empty cs = (cs = {})"

text \<open>Modelled from the spec: the blob cache (spec, section 6). An interest handle is
  either empty or a token of the cache; \<open>handle_getObject\<close> tells whether the blob of a
  token is still cached, and \<open>cache_get\<close> is \<open>BlobCache::get\<close>.\<close>

type_synonym CacheInterest = nat
type_synonym InterestHandle = "CacheInterest option"

datatype Interest = UnlikelyNeededAgain | WantHandle | LikelyNeededAgain

record GetResult =
  gr_object :: "Blob option"
  gr_interestHandle :: InterestHandle

record BlobCache =
  handle_getObject :: "CacheInterest \<Rightarrow> Blob option"
  cache_get :: "ObjectId \<Rightarrow> Interest \<Rightarrow> GetResult"

definition InterestHandle_getObject :: "BlobCache \<Rightarrow> InterestHandle \<Rightarrow> Blob option" where
  "InterestHandle_getObject cache h =
     (case h of None \<Rightarrow> None | Some token \<Rightarrow> handle_getObject cache token)"

text \<open>Modelled from the spec: \<open>FileInodeState\<close>, declared in FileInode.h, with the fields
  that FileInode.cpp reads and writes (spec, section 3.2). A promise is known by a number.\<close>

type_synonym SharedPromise = nat

record FileInodeState =
  tag :: Tag
  nonMaterializedState :: "NonMaterializedState option"
  blobLoadingPromise :: "SharedPromise option"
  interestHandle :: InterestHandle
  readByteRanges :: CoverageSet

text \<open>The inode: its locked state, and its file in the overlay (none before the inode is
  materialized).\<close>

record FileInode =
  state :: FileInodeState
  overlayFile :: "byte list option"

text \<open>What the surroundings decide during one stretch of code: the blob cache, whether
  \<open>BlobAccess::getBlob\<close> throws at once, whether the overlay fails, the promise that
  \<open>make_unique\<close> returns, and whether the inode lies in the \<open>.eden\<close> directory.\<close>

record Env =
  blobCache :: BlobCache
  getBlobThrows :: bool
  overlayThrows :: bool
  newPromise :: SharedPromise
  parentIsDotEden :: bool

datatype inode_error = BlobFetchFailed | OverlayIoFailed | EPERM | EINVAL

datatype abort =
    InvariantCheckFailed   \<comment> \<open>an \<open>XCHECK\<close> of checkInvariants\<close>
  | CheckFailed            \<comment> \<open>any other \<open>XCHECK\<close> or \<open>XDCHECK\<close>\<close>
  | EdenBug                \<comment> \<open>\<open>EDEN_BUG\<close>, then \<open>XLOG(FATAL)\<close>\<close>
  | NullDereference        \<comment> \<open>an empty optional or pointer is dereferenced\<close>

text \<open>How a stretch of code ends: it returns a value, throws, leaves a future that waits
  for the blob, or stops the process.\<close>

datatype 'r outcome = Returned 'r | Threw inode_error | Awaiting | Aborted abort

subsection \<open>FileInodeState\<close>

definition isMaterialized :: "FileInodeState \<Rightarrow> bool" where
  "isMaterialized s = (tag s = MATERIALIZED_IN_OVERLAY)"

text \<open>\<open>True\<close> when every \<open>XCHECK\<close> of checkInvariants passes.\<close>

definition checkInvariants :: "FileInodeState \<Rightarrow> bool" where
  "checkInvariants s =
     (case tag s of
        BLOB_NOT_LOADING \<Rightarrow> nonMaterializedState s \<noteq> None \<and> blobLoadingPromise s = None
      | BLOB_LOADING \<Rightarrow>
          nonMaterializedState s \<noteq> None \<and> blobLoadingPromise s \<noteq> None
          \<and> CoverageSet_empty (readByteRanges s)
      | MATERIALIZED_IN_OVERLAY \<Rightarrow>
          nonMaterializedState s = None \<and> blobLoadingPromise s = None
          \<and> CoverageSet_empty (readByteRanges s))"

text \<open>The two constructors of \<open>FileInodeState\<close>; each ends with checkInvariants, which
  passes on what they build.\<close>

definition FileInodeState_of_hash :: "64 word \<Rightarrow> ObjectId option \<Rightarrow> FileInodeState" where
  "FileInodeState_of_hash kUnknownSize h =
     (let nonMaterialized = (case h of None \<Rightarrow> None
                             | Some h' \<Rightarrow> Some \<lparr>nm_hash = h', nm_size = kUnknownSize\<rparr>)
      in \<lparr>tag = (if nonMaterialized \<noteq> None then BLOB_NOT_LOADING else MATERIALIZED_IN_OVERLAY),
          nonMaterializedState = nonMaterialized,
          blobLoadingPromise = None,
          interestHandle = None,
          readByteRanges = CoverageSet_clear\<rparr>)"

definition FileInodeState_materialized :: FileInodeState where
  "FileInodeState_materialized =
     \<lparr>tag = MATERIALIZED_IN_OVERLAY, nonMaterializedState = None, blobLoadingPromise = None,
      interestHandle = None, readByteRanges = CoverageSet_clear\<rparr>"

text \<open>Releasing the lock, by \<open>LockedState::unlock\<close> or by the destructor, checks the
  invariants first.\<close>

definition unlock :: "'r outcome \<times> FileInode \<Rightarrow> 'r outcome \<times> FileInode" where
  "unlock r =
     (case r of
        (Aborted a, w) \<Rightarrow> (Aborted a, w)
      | (out, w) \<Rightarrow> if checkInvariants (state w) then (out, w)
                    else (Aborted InvariantCheckFailed, w))"

definition setMaterialized :: "FileInodeState \<Rightarrow> FileInodeState" where
  "setMaterialized s =
     s\<lparr>nonMaterializedState := None, tag := MATERIALIZED_IN_OVERLAY,
       interestHandle := None, readByteRanges := CoverageSet_clear\<rparr>"

text \<open>getCachedBlob returns the blob, if any, and the state as it leaves it; \<open>Inl\<close> when
  the process stops.\<close>

definition getCachedBlob ::
  "Env \<Rightarrow> FileInodeState \<Rightarrow> Interest \<Rightarrow> abort + (Blob option \<times> FileInodeState)" where
  "getCachedBlob env s interest =
     (if isMaterialized s then Inl CheckFailed
      else case InterestHandle_getObject (blobCache env) (interestHandle s) of
        Some blob \<Rightarrow> Inr (Some blob, s)
      | None \<Rightarrow>
          (case nonMaterializedState s of
             None \<Rightarrow> Inl NullDereference
           | Some nm \<Rightarrow>
               let result = cache_get (blobCache env) (nm_hash nm) interest in
               (case gr_object result of
                  Some blob \<Rightarrow> Inr (Some blob, s\<lparr>interestHandle := gr_interestHandle result\<rparr>)
                | None \<Rightarrow> Inr (None, s\<lparr>interestHandle := None,
                                        readByteRanges := CoverageSet_clear\<rparr>))))"

subsection \<open>The overlay\<close>

text \<open>Modelled from the spec: the overlay bridge (spec, section 4.5), for the file of this
  inode. Every call throws when the surroundings say so, or when the file is not there.\<close>

definition Overlay_createFile :: "Env \<Rightarrow> Blob \<Rightarrow> inode_error + byte list option" where
  "Overlay_createFile env blob =
     (if overlayThrows env then Inl OverlayIoFailed else Inr (Some (blobContents blob)))"

definition Overlay_createEmptyFile :: "Env \<Rightarrow> inode_error + byte list option" where
  "Overlay_createEmptyFile env =
     (if overlayThrows env then Inl OverlayIoFailed else Inr (Some []))"

definition Overlay_truncate ::
  "Env \<Rightarrow> byte list option \<Rightarrow> nat \<Rightarrow> inode_error + byte list option" where
  "Overlay_truncate env file newSize =
     (case file of
        None \<Rightarrow> Inl OverlayIoFailed
      | Some bytes \<Rightarrow>
          if overlayThrows env then Inl OverlayIoFailed
          else Inr (Some (take newSize bytes @ replicate (newSize - length bytes) 0)))"

definition Overlay_getFileSize :: "Env \<Rightarrow> byte list option \<Rightarrow> inode_error + nat" where
  "Overlay_getFileSize env file =
     (case file of
        None \<Rightarrow> Inl OverlayIoFailed
      | Some bytes \<Rightarrow> if overlayThrows env then Inl OverlayIoFailed else Inr (length bytes))"

definition Overlay_read ::
  "Env \<Rightarrow> byte list option \<Rightarrow> nat \<Rightarrow> nat \<Rightarrow> inode_error + byte list" where
  "Overlay_read env file size' off =
     (case file of
        None \<Rightarrow> Inl OverlayIoFailed
      | Some bytes \<Rightarrow>
          if overlayThrows env then Inl OverlayIoFailed else Inr (take size' (drop off bytes)))"

definition Overlay_readAllContents :: "Env \<Rightarrow> byte list option \<Rightarrow> inode_error + byte list" where
  "Overlay_readAllContents env file =
     (case file of
        None \<Rightarrow> Inl OverlayIoFailed
      | Some bytes \<Rightarrow> if overlayThrows env then Inl OverlayIoFailed else Inr bytes)"

definition Overlay_write ::
  "Env \<Rightarrow> byte list option \<Rightarrow> byte list \<Rightarrow> nat \<Rightarrow> inode_error + (nat \<times> byte list option)" where
  "Overlay_write env file buf off =
     (case file of
        None \<Rightarrow> Inl OverlayIoFailed
      | Some bytes \<Rightarrow>
          if overlayThrows env then Inl OverlayIoFailed
          else Inr (length buf,
                    Some (take off bytes @ replicate (off - length bytes) 0 @ buf
                          @ drop (off + length buf) bytes)))"

definition Overlay_fallocate ::
  "Env \<Rightarrow> byte list option \<Rightarrow> nat \<Rightarrow> nat \<Rightarrow> inode_error + byte list option" where
  "Overlay_fallocate env file off len =
     (case file of
        None \<Rightarrow> Inl OverlayIoFailed
      | Some bytes \<Rightarrow>
          if overlayThrows env then Inl OverlayIoFailed
          else Inr (Some (bytes @ replicate (off + len - length bytes) 0)))"

subsection \<open>Materialization\<close>

text \<open>The next three run inside a stretch of code and do not release the lock.\<close>

definition materializeNow :: "Env \<Rightarrow> FileInode \<Rightarrow> Blob \<Rightarrow> unit outcome \<times> FileInode" where
  "materializeNow env w blob =
     (if tag (state w) \<noteq> BLOB_NOT_LOADING then (Aborted CheckFailed, w)
      else case nonMaterializedState (state w) of
        None \<Rightarrow> (Aborted NullDereference, w)
      | Some nm \<Rightarrow>
          (case Overlay_createFile env blob of
             Inl e \<Rightarrow> (Threw e, w)
           | Inr file \<Rightarrow>
               (Returned (), w\<lparr>overlayFile := file, state := setMaterialized (state w)\<rparr>)))"

definition materializeAndTruncate :: "Env \<Rightarrow> FileInode \<Rightarrow> unit outcome \<times> FileInode" where
  "materializeAndTruncate env w =
     (if \<not> tag (state w) \<noteq> MATERIALIZED_IN_OVERLAY then (Aborted CheckFailed, w)
      else case Overlay_createEmptyFile env of
        Inl e \<Rightarrow> (Threw e, w)
      | Inr file \<Rightarrow> (Returned (), w\<lparr>overlayFile := file, state := setMaterialized (state w)\<rparr>))"

definition truncateInOverlay :: "Env \<Rightarrow> FileInode \<Rightarrow> unit outcome \<times> FileInode" where
  "truncateInOverlay env w =
     (if tag (state w) \<noteq> MATERIALIZED_IN_OVERLAY then (Aborted CheckFailed, w)
      else if \<not> nonMaterializedState (state w) = None then (Aborted CheckFailed, w)
      else case Overlay_truncate env (overlayFile w) 0 of
        Inl e \<Rightarrow> (Threw e, w)
      | Inr file \<Rightarrow> (Returned (), w\<lparr>overlayFile := file\<rparr>))"

subsection \<open>Loading the blob\<close>

text \<open>startLoadingData up to the point where it has released the lock and returns the
  future of the new promise.\<close>

definition startLoadingData :: "Env \<Rightarrow> FileInode \<Rightarrow> Interest \<Rightarrow> 'r outcome \<times> FileInode" where
  "startLoadingData env w interest =
     (if tag (state w) \<noteq> BLOB_NOT_LOADING then (Aborted CheckFailed, w)
      else case nonMaterializedState (state w) of
        None \<Rightarrow> (Aborted NullDereference, w)
      | Some nm \<Rightarrow>
          if getBlobThrows env then unlock (Threw BlobFetchFailed, w)
          else unlock (Awaiting,
                       w\<lparr>state := (state w)\<lparr>blobLoadingPromise := Some (newPromise env),
                                             tag := BLOB_LOADING\<rparr>\<rparr>))"

text \<open>The callback that startLoadingData attaches to the blob future: it runs when the
  load has finished, with a blob and its interest handle or with an error.\<close>

definition loadFinished :: "inode_error + GetResult \<Rightarrow> FileInode \<Rightarrow> unit outcome \<times> FileInode" where
  "loadFinished tryResult w =
     (case tag (state w) of
        BLOB_NOT_LOADING \<Rightarrow> (Aborted EdenBug, w)
      | BLOB_LOADING \<Rightarrow>
          (case blobLoadingPromise (state w) of
             None \<Rightarrow> (Aborted NullDereference, w)
           | Some promise \<Rightarrow>
               let s = (state w)\<lparr>blobLoadingPromise := None, tag := BLOB_NOT_LOADING\<rparr> in
               (case tryResult of
                  Inr result \<Rightarrow>
                    unlock (Returned (), w\<lparr>state := s\<lparr>interestHandle := gr_interestHandle result\<rparr>\<rparr>)
                | Inl e \<Rightarrow> unlock (Returned (), w\<lparr>state := s\<rparr>)))
      | MATERIALIZED_IN_OVERLAY \<Rightarrow>
          if blobLoadingPromise (state w) \<noteq> None then (Aborted CheckFailed, w)
          else unlock (Returned (), w))"

subsection \<open>The three runners\<close>

definition runWhileDataLoaded ::
  "Env \<Rightarrow> FileInode \<Rightarrow> Interest \<Rightarrow> Blob option
     \<Rightarrow> (FileInode \<Rightarrow> Blob option \<Rightarrow> 'r outcome \<times> FileInode) \<Rightarrow> 'r outcome \<times> FileInode" where
  "runWhileDataLoaded env w interest blob fn =
     (case tag (state w) of
        BLOB_NOT_LOADING \<Rightarrow>
          (case (if blob = None then getCachedBlob env (state w) interest
                 else Inr (blob, state w)) of
             Inl a \<Rightarrow> (Aborted a, w)
           | Inr (blob', s) \<Rightarrow>
               (case blob' of
                  Some b \<Rightarrow> unlock (fn (w\<lparr>state := s\<rparr>) (Some b))
                | None \<Rightarrow> startLoadingData env (w\<lparr>state := s\<rparr>) interest))
      | BLOB_LOADING \<Rightarrow>
          (case blobLoadingPromise (state w) of
             None \<Rightarrow> (Aborted NullDereference, w)
           | Some promise \<Rightarrow> unlock (Awaiting, w))
      | MATERIALIZED_IN_OVERLAY \<Rightarrow> unlock (fn w None))"

text \<open>The continuation that runWhileDataLoaded attaches to the loading future: it takes
  the lock again and calls runWhileDataLoaded with the blob of the promise, which is null
  when a truncation fulfilled it.\<close>

definition runWhileDataLoaded_resume ::
  "Env \<Rightarrow> FileInode \<Rightarrow> Interest \<Rightarrow> Blob option
     \<Rightarrow> (FileInode \<Rightarrow> Blob option \<Rightarrow> 'r outcome \<times> FileInode) \<Rightarrow> 'r outcome \<times> FileInode" where
  "runWhileDataLoaded_resume env w interest blob fn =
     (if \<not> (tag (state w) = BLOB_NOT_LOADING \<or> tag (state w) = MATERIALIZED_IN_OVERLAY) then
        (Aborted CheckFailed, w)
      else runWhileDataLoaded env w interest blob fn)"

definition runWhileMaterialized ::
  "Env \<Rightarrow> FileInode \<Rightarrow> Blob option \<Rightarrow> (FileInode \<Rightarrow> 'r outcome \<times> FileInode)
     \<Rightarrow> 'r outcome \<times> FileInode" where
  "runWhileMaterialized env w blob fn =
     (case tag (state w) of
        BLOB_NOT_LOADING \<Rightarrow>
          (case (if blob = None then getCachedBlob env (state w) UnlikelyNeededAgain
                 else Inr (blob, state w)) of
             Inl a \<Rightarrow> (Aborted a, w)
           | Inr (blob', s) \<Rightarrow>
               (case blob' of
                  Some b \<Rightarrow>
                    (case materializeNow env (w\<lparr>state := s\<rparr>) b of
                       (Returned _, w') \<Rightarrow> unlock (fn w')
                     | (Threw e, w') \<Rightarrow> unlock (Threw e, w')
                     | (Awaiting, w') \<Rightarrow> unlock (Awaiting, w')
                     | (Aborted a, w') \<Rightarrow> (Aborted a, w'))
                | None \<Rightarrow> startLoadingData env (w\<lparr>state := s\<rparr>) UnlikelyNeededAgain))
      | BLOB_LOADING \<Rightarrow>
          (case blobLoadingPromise (state w) of
             None \<Rightarrow> (Aborted NullDereference, w)
           | Some promise \<Rightarrow> unlock (Awaiting, w))
      | MATERIALIZED_IN_OVERLAY \<Rightarrow> unlock (fn w))"

definition runWhileMaterialized_resume ::
  "Env \<Rightarrow> FileInode \<Rightarrow> Blob option \<Rightarrow> (FileInode \<Rightarrow> 'r outcome \<times> FileInode)
     \<Rightarrow> 'r outcome \<times> FileInode" where
  "runWhileMaterialized_resume env w blob fn =
     (if \<not> (tag (state w) = BLOB_NOT_LOADING \<or> tag (state w) = MATERIALIZED_IN_OVERLAY) then
        (Aborted CheckFailed, w)
      else runWhileMaterialized env w blob fn)"

text \<open>The first two cases of the \<open>switch\<close> of truncateAndRun share one block.\<close>

definition truncateAndRun_materialize ::
  "Env \<Rightarrow> FileInode \<Rightarrow> (FileInode \<Rightarrow> 'r outcome \<times> FileInode) \<Rightarrow> 'r outcome \<times> FileInode" where
  "truncateAndRun_materialize env w fn =
     (case materializeAndTruncate env w of
        (Returned _, w') \<Rightarrow>
          unlock (fn (w'\<lparr>state := (state w')\<lparr>blobLoadingPromise := None\<rparr>\<rparr>))
      | (Threw e, w') \<Rightarrow> unlock (Threw e, w')
      | (Awaiting, w') \<Rightarrow> unlock (Awaiting, w')
      | (Aborted a, w') \<Rightarrow> (Aborted a, w'))"

definition truncateAndRun ::
  "Env \<Rightarrow> FileInode \<Rightarrow> (FileInode \<Rightarrow> 'r outcome \<times> FileInode) \<Rightarrow> 'r outcome \<times> FileInode" where
  "truncateAndRun env w fn =
     (case tag (state w) of
        BLOB_NOT_LOADING \<Rightarrow> truncateAndRun_materialize env w fn
      | BLOB_LOADING \<Rightarrow> truncateAndRun_materialize env w fn
      | MATERIALIZED_IN_OVERLAY \<Rightarrow>
          (case truncateInOverlay env w of
             (Returned _, w') \<Rightarrow> unlock (fn w')
           | (Threw e, w') \<Rightarrow> unlock (Threw e, w')
           | (Awaiting, w') \<Rightarrow> unlock (Awaiting, w')
           | (Aborted a, w') \<Rightarrow> (Aborted a, w')))"

subsection \<open>The operations\<close>

text \<open>A \<open>folly::io::Cursor\<close> over the contents of a blob is the list of the bytes ahead.\<close>

definition Cursor_canAdvance :: "byte list \<Rightarrow> nat \<Rightarrow> bool" where
  "Cursor_canAdvance cursor amount = (amount \<le> length cursor)"

definition Cursor_cloneAtMost :: "byte list \<Rightarrow> nat \<Rightarrow> byte list \<times> byte list" where
  "Cursor_cloneAtMost cursor len = (take len cursor, drop len cursor)"

definition Cursor_isAtEnd :: "byte list \<Rightarrow> bool" where
  "Cursor_isAtEnd cursor = (cursor = [])"

text \<open>The function that read passes to runWhileDataLoaded. \<open>size\<close> is a \<open>size_t\<close> and
  \<open>off\<close> an \<open>off_t\<close>; their sum wraps around at 64 bits.\<close>

definition read_fn ::
  "Env \<Rightarrow> 64 word \<Rightarrow> 64 word \<Rightarrow> FileInode \<Rightarrow> Blob option
     \<Rightarrow> (byte list \<times> bool) outcome \<times> FileInode" where
  "read_fn env size' off w blob =
     (if tag (state w) = MATERIALIZED_IN_OVERLAY then
        (case Overlay_read env (overlayFile w) (unat size') (unat off) of
           Inl e \<Rightarrow> (Threw e, w)
         | Inr buf \<Rightarrow> let eof = (size' \<noteq> 0 \<and> buf = []) in (Returned (buf, eof), w))
      else if tag (state w) \<noteq> BLOB_NOT_LOADING then (Aborted CheckFailed, w)
      else case blob of
        None \<Rightarrow> (Aborted CheckFailed, w)
      | Some b \<Rightarrow>
          let ranges = CoverageSet_add (readByteRanges (state w)) (unat off) (unat (off + size'));
              s = (if CoverageSet_covers ranges 0 (Blob_getSize b)
                   then (state w)\<lparr>interestHandle := None, readByteRanges := CoverageSet_clear\<rparr>
                   else (state w)\<lparr>readByteRanges := ranges\<rparr>);
              buf = blobContents b
          in if \<not> Cursor_canAdvance buf (unat off) then (Returned ([], True), w\<lparr>state := s\<rparr>)
             else
               let cursor = drop (unat off) buf;
                   (result, cursor') = Cursor_cloneAtMost cursor (unat size')
               in (Returned (result, Cursor_isAtEnd cursor'), w\<lparr>state := s\<rparr>))"

definition read ::
  "Env \<Rightarrow> FileInode \<Rightarrow> 64 word \<Rightarrow> 64 word \<Rightarrow> (byte list \<times> bool) outcome \<times> FileInode" where
  "read env w size' off =
     (if \<not> sint off \<ge> 0 then (Aborted CheckFailed, w)
      else runWhileDataLoaded env w WantHandle None (read_fn env size' off))"

definition read_resume ::
  "Env \<Rightarrow> FileInode \<Rightarrow> 64 word \<Rightarrow> 64 word \<Rightarrow> Blob option
     \<Rightarrow> (byte list \<times> bool) outcome \<times> FileInode" where
  "read_resume env w size' off blob =
     runWhileDataLoaded_resume env w WantHandle blob (read_fn env size' off)"

datatype CacheHint = NotNeededAgain | LikelyNeededAgainHint

definition readAll_fn :: "Env \<Rightarrow> FileInode \<Rightarrow> Blob option \<Rightarrow> byte list outcome \<times> FileInode" where
  "readAll_fn env w blob =
     (case tag (state w) of
        MATERIALIZED_IN_OVERLAY \<Rightarrow>
          if \<not> blob = None then (Aborted CheckFailed, w)
          else (case Overlay_readAllContents env (overlayFile w) of
                  Inl e \<Rightarrow> (Threw e, w)
                | Inr result \<Rightarrow> (Returned result, w))
      | BLOB_NOT_LOADING \<Rightarrow>
          (case blob of
             None \<Rightarrow> (Aborted NullDereference, w)
           | Some b \<Rightarrow> (Returned (blobContents b), w))
      | BLOB_LOADING \<Rightarrow> (Aborted EdenBug, w))"

definition readAll_interest :: "CacheHint \<Rightarrow> Interest" where
  "readAll_interest cacheHint =
     (case cacheHint of
        NotNeededAgain \<Rightarrow> UnlikelyNeededAgain
      | LikelyNeededAgainHint \<Rightarrow> WantHandle)"

definition readAll :: "Env \<Rightarrow> FileInode \<Rightarrow> CacheHint \<Rightarrow> byte list outcome \<times> FileInode" where
  "readAll env w cacheHint =
     runWhileDataLoaded env w (readAll_interest cacheHint) None (readAll_fn env)"

definition readAll_resume ::
  "Env \<Rightarrow> FileInode \<Rightarrow> CacheHint \<Rightarrow> Blob option \<Rightarrow> byte list outcome \<times> FileInode" where
  "readAll_resume env w cacheHint blob =
     runWhileDataLoaded_resume env w (readAll_interest cacheHint) blob (readAll_fn env)"

text \<open>writeImpl releases the lock itself, after the write and before the journal.\<close>

definition writeImpl ::
  "Env \<Rightarrow> FileInode \<Rightarrow> byte list \<Rightarrow> 64 word \<Rightarrow> nat outcome \<times> FileInode" where
  "writeImpl env w iov off =
     (if tag (state w) \<noteq> MATERIALIZED_IN_OVERLAY then (Aborted CheckFailed, w)
      else case Overlay_write env (overlayFile w) iov (unat off) of
        Inl e \<Rightarrow> (Threw e, w)
      | Inr (xfer, file) \<Rightarrow> unlock (Returned xfer, w\<lparr>overlayFile := file\<rparr>))"

text \<open>\<open>write(BufVec&&, off, ctx)\<close>.\<close>

definition write_bufvec ::
  "Env \<Rightarrow> FileInode \<Rightarrow> byte list \<Rightarrow> 64 word \<Rightarrow> nat outcome \<times> FileInode" where
  "write_bufvec env w buf off =
     runWhileMaterialized env w None (\<lambda>w'. writeImpl env w' buf off)"

definition write_bufvec_resume ::
  "Env \<Rightarrow> FileInode \<Rightarrow> byte list \<Rightarrow> 64 word \<Rightarrow> Blob option \<Rightarrow> nat outcome \<times> FileInode" where
  "write_bufvec_resume env w buf off blob =
     runWhileMaterialized_resume env w blob (\<lambda>w'. writeImpl env w' buf off)"

text \<open>\<open>write(StringPiece, off, ctx)\<close>; its continuation is that of the other write.\<close>

definition write_string ::
  "Env \<Rightarrow> FileInode \<Rightarrow> byte list \<Rightarrow> 64 word \<Rightarrow> nat outcome \<times> FileInode" where
  "write_string env w data' off =
     (if tag (state w) = MATERIALIZED_IN_OVERLAY then unlock (writeImpl env w data' off)
      else runWhileMaterialized env w None (\<lambda>w'. writeImpl env w' data' off))"

text \<open>Of \<open>struct stat\<close> and of \<open>DesiredMetadata\<close> the model keeps the sizes.\<close>

record struct_stat =
  st_size :: "64 word"
  st_blocks :: "64 word"

record DesiredMetadata =
  desired_size :: "64 word option"

definition initStatData :: struct_stat where
  "initStatData = \<lparr>st_size = 0, st_blocks = 0\<rparr>"

text \<open>\<open>st_size\<close> is a signed \<open>off_t\<close>: the sum is taken in 64 bits, where it wraps
  around, and the division of C truncates towards zero.\<close>

definition updateBlockCount :: "struct_stat \<Rightarrow> struct_stat" where
  "updateBlockCount st =
     (let n = sint (st_size st + 512 - 1)
      in st\<lparr>st_blocks := word_of_int (sgn n * (\<bar>n\<bar> div 512))\<rparr>)"

text \<open>The function \<open>setAttrs\<close> of setattr.\<close>

definition setAttrs :: "Env \<Rightarrow> DesiredMetadata \<Rightarrow> FileInode \<Rightarrow> struct_stat outcome \<times> FileInode" where
  "setAttrs env desired w =
     (if tag (state w) \<noteq> MATERIALIZED_IN_OVERLAY then (Aborted CheckFailed, w)
      else
        case (case desired_size desired of
                None \<Rightarrow> Inr (overlayFile w)
              | Some n \<Rightarrow> Overlay_truncate env (overlayFile w) (unat n)) of
          Inl e \<Rightarrow> (Threw e, w)
        | Inr file \<Rightarrow>
            (case Overlay_getFileSize env file of
               Inl e \<Rightarrow> (Threw e, w\<lparr>overlayFile := file\<rparr>)
             | Inr size' \<Rightarrow>
                 (Returned (updateBlockCount (initStatData\<lparr>st_size := of_nat size'\<rparr>)),
                  w\<lparr>overlayFile := file\<rparr>)))"

definition setattr :: "Env \<Rightarrow> FileInode \<Rightarrow> DesiredMetadata \<Rightarrow> struct_stat outcome \<times> FileInode" where
  "setattr env w desired =
     (if parentIsDotEden env then (Threw EPERM, w)
      else
        let truncate = (desired_size desired \<noteq> None \<and> the (desired_size desired) = 0)
        in if truncate then truncateAndRun env w (setAttrs env desired)
           else runWhileMaterialized env w None (setAttrs env desired))"

definition setattr_resume ::
  "Env \<Rightarrow> FileInode \<Rightarrow> DesiredMetadata \<Rightarrow> Blob option \<Rightarrow> struct_stat outcome \<times> FileInode" where
  "setattr_resume env w desired blob =
     runWhileMaterialized_resume env w blob (setAttrs env desired)"

definition fallocate_fn :: "Env \<Rightarrow> 64 word \<Rightarrow> 64 word \<Rightarrow> FileInode \<Rightarrow> unit outcome \<times> FileInode" where
  "fallocate_fn env offset' length' w =
     (case Overlay_fallocate env (overlayFile w) (unat offset') (unat length') of
        Inl e \<Rightarrow> (Threw e, w)
      | Inr file \<Rightarrow> (Returned (), w\<lparr>overlayFile := file\<rparr>))"

definition fallocate :: "Env \<Rightarrow> FileInode \<Rightarrow> 64 word \<Rightarrow> 64 word \<Rightarrow> unit outcome \<times> FileInode" where
  "fallocate env w offset' length' =
     runWhileMaterialized env w None (fallocate_fn env offset' length')"

definition fallocate_resume ::
  "Env \<Rightarrow> FileInode \<Rightarrow> 64 word \<Rightarrow> 64 word \<Rightarrow> Blob option \<Rightarrow> unit outcome \<times> FileInode" where
  "fallocate_resume env w offset' length' blob =
     runWhileMaterialized_resume env w blob (fallocate_fn env offset' length')"

definition fsync :: "Env \<Rightarrow> FileInode \<Rightarrow> unit outcome \<times> FileInode" where
  "fsync env w =
     (if isMaterialized (state w) then
        (if overlayThrows env then unlock (Threw OverlayIoFailed, w) else unlock (Returned (), w))
      else unlock (Returned (), w))"

text \<open>stat either has the size at hand, or asks the object store for the size of the blob
  and goes on in its continuation once the size is there.\<close>

datatype stat_progress = StatReady struct_stat | StatFetchesSize ObjectId struct_stat

definition stat :: "64 word \<Rightarrow> Env \<Rightarrow> FileInode \<Rightarrow> stat_progress outcome \<times> FileInode" where
  "stat kUnknownSize env w =
     (let st = initStatData in
      if isMaterialized (state w) then
        (case Overlay_getFileSize env (overlayFile w) of
           Inl e \<Rightarrow> unlock (Threw e, w)
         | Inr size' \<Rightarrow>
             unlock (Returned (StatReady (updateBlockCount (st\<lparr>st_size := of_nat size'\<rparr>))), w))
      else
        case nonMaterializedState (state w) of
          None \<Rightarrow> (Aborted CheckFailed, w)
        | Some nm \<Rightarrow>
            if nm_size nm \<noteq> kUnknownSize then
              unlock (Returned (StatReady (updateBlockCount (st\<lparr>st_size := nm_size nm\<rparr>))), w)
            else unlock (Returned (StatFetchesSize (nm_hash nm) st), w))"

text \<open>The continuation of stat, run with the size that the object store returned.\<close>

definition stat_resume ::
  "FileInode \<Rightarrow> struct_stat \<Rightarrow> 64 word \<Rightarrow> struct_stat outcome \<times> FileInode" where
  "stat_resume w st size' =
     (case (if \<not> isMaterialized (state w) then
              (case nonMaterializedState (state w) of
                 None \<Rightarrow> (Aborted NullDereference, w)
               | Some nm \<Rightarrow>
                   unlock (Returned (),
                           w\<lparr>state := (state w)\<lparr>nonMaterializedState :=
                                                   Some (nm\<lparr>nm_size := size'\<rparr>)\<rparr>\<rparr>))
            else unlock (Returned (), w)) of
        (Aborted a, w') \<Rightarrow> (Aborted a, w')
      | (_, w') \<Rightarrow> (Returned (updateBlockCount (st\<lparr>st_size := size'\<rparr>)), w'))"

subsection \<open>Reachable states\<close>

text \<open>Everything that takes the lock of the inode: the operations, their continuations
  and the end of a load.\<close>

datatype event =
    Read "64 word" "64 word"
  | Read_resume "64 word" "64 word" "Blob option"
  | ReadAll CacheHint
  | ReadAll_resume CacheHint "Blob option"
  | Write_bufvec "byte list" "64 word"
  | Write_string "byte list" "64 word"
  | Write_resume "byte list" "64 word" "Blob option"
  | Setattr DesiredMetadata
  | Setattr_resume DesiredMetadata "Blob option"
  | Fallocate "64 word" "64 word"
  | Fallocate_resume "64 word" "64 word" "Blob option"
  | Fsync
  | Stat
  | Stat_resume struct_stat "64 word"
  | LoadFinished "inode_error + GetResult"

definition forget :: "'r outcome \<times> FileInode \<Rightarrow> unit outcome \<times> FileInode" where
  "forget r = (map_outcome (\<lambda>_. ()) (fst r), snd r)"

definition exec :: "64 word \<Rightarrow> Env \<Rightarrow> event \<Rightarrow> FileInode \<Rightarrow> unit outcome \<times> FileInode" where
  "exec kUnknownSize env ev w =
     (case ev of
        Read size' off \<Rightarrow> forget (read env w size' off)
      | Read_resume size' off blob \<Rightarrow> forget (read_resume env w size' off blob)
      | ReadAll hint \<Rightarrow> forget (readAll env w hint)
      | ReadAll_resume hint blob \<Rightarrow> forget (readAll_resume env w hint blob)
      | Write_bufvec buf off \<Rightarrow> forget (write_bufvec env w buf off)
      | Write_string buf off \<Rightarrow> forget (write_string env w buf off)
      | Write_resume buf off blob \<Rightarrow> forget (write_bufvec_resume env w buf off blob)
      | Setattr desired \<Rightarrow> forget (setattr env w desired)
      | Setattr_resume desired blob \<Rightarrow> forget (setattr_resume env w desired blob)
      | Fallocate offset' length' \<Rightarrow> forget (fallocate env w offset' length')
      | Fallocate_resume offset' length' blob \<Rightarrow> forget (fallocate_resume env w offset' length' blob)
      | Fsync \<Rightarrow> forget (fsync env w)
      | Stat \<Rightarrow> forget (stat kUnknownSize env w)
      | Stat_resume st size' \<Rightarrow> forget (stat_resume w st size')
      | LoadFinished tryResult \<Rightarrow> forget (loadFinished tryResult w))"

definition stopped :: "'r outcome \<Rightarrow> bool" where
  "stopped out = (case out of Aborted _ \<Rightarrow> True | _ \<Rightarrow> False)"

text \<open>An inode starts from one of the two constructors, with a file in the overlay when
  it is born materialized, and moves by the events for as long as the process runs.\<close>

inductive reachable :: "64 word \<Rightarrow> FileInode \<Rightarrow> bool" for kUnknownSize :: "64 word" where
  from_hash:
    "reachable kUnknownSize
       \<lparr>state = FileInodeState_of_hash kUnknownSize (Some h), overlayFile = None\<rparr>"
| from_overlay:
    "reachable kUnknownSize
       \<lparr>state = FileInodeState_of_hash kUnknownSize None, overlayFile = Some bytes\<rparr>"
| created:
    "reachable kUnknownSize \<lparr>state = FileInodeState_materialized, overlayFile = Some bytes\<rparr>"
| step:
    "reachable kUnknownSize w \<Longrightarrow> exec kUnknownSize env ev w = (out, w') \<Longrightarrow> \<not> stopped out
       \<Longrightarrow> reachable kUnknownSize w'"

text \<open>The invariant of claim C2 for the materialized state.\<close>

definition materialized_invariant :: "FileInodeState \<Rightarrow> bool" where
  "materialized_invariant s =
     (tag s = MATERIALIZED_IN_OVERLAY \<longrightarrow>
        nonMaterializedState s = None \<and> blobLoadingPromise s = None
        \<and> interestHandle s = None \<and> CoverageSet_empty (readByteRanges s))"

text \<open>The table of the three states that checkInvariants enforces, and the interest
  handle, which it does not look at.\<close>

definition state_ok :: "FileInodeState \<Rightarrow> bool" where
  "state_ok s = (checkInvariants s \<and> (tag s = MATERIALIZED_IN_OVERLAY \<longrightarrow> interestHandle s = None))"

text \<open>A stretch of code ends well when it has not stopped in checkInvariants and, unless
  it stopped the process otherwise, has left a state that satisfies \<open>state_ok\<close>.\<close>

definition good :: "'r outcome \<times> FileInode \<Rightarrow> bool" where
  "good r = (case fst r of Aborted a \<Rightarrow> a \<noteq> InvariantCheckFailed | _ \<Rightarrow> state_ok (state (snd r)))"

text \<open>The non-materialized record holds the size \<open>size'\<close>.\<close>

definition memoized :: "64 word \<Rightarrow> FileInode \<Rightarrow> bool" where
  "memoized size' w =
     (case nonMaterializedState (state w) of None \<Rightarrow> False | Some nm \<Rightarrow> nm_size nm = size')"

text \<open>From one state to a later one: a materialized inode stays materialized, and an
  inode that is not materialized yet has kept its object id and its size.\<close>

definition carries_over :: "FileInode \<Rightarrow> FileInode \<Rightarrow> bool" where
  "carries_over w w' =
     ((tag (state w) = MATERIALIZED_IN_OVERLAY \<longrightarrow> tag (state w') = MATERIALIZED_IN_OVERLAY)
      \<and> (tag (state w') \<noteq> MATERIALIZED_IN_OVERLAY \<longrightarrow>
            nonMaterializedState (state w') = nonMaterializedState (state w)))"

section \<open>Concrete inputs\<close>

text \<open>Small concrete values on which the theorems below are run.\<close>

definition witness_sha1 :: "byte list \<Rightarrow> ObjectId" where
  "witness_sha1 buf = replicate 20 (of_nat (length buf))"

definition witness_hash :: Hash20 where
  "witness_hash = [1, 2, 3, 4, 5, 6, 7, 8, 9, 10, 11, 12, 13, 14, 15, 16, 17, 18, 19, 20]"

definition witness_stored :: "byte list" where
  "witness_stored = witness_hash @ [0, 0, 0, 3] @ [97, 47, 98]"

definition witness_store :: LocalStore where
  "witness_store = \<lparr>kv = [witness_sha1 witness_stored \<mapsto> witness_stored], gets = []\<rparr>"

definition witness_env :: "unit TakeoverEnv" where
  "witness_env =
     \<lparr>CUSTOM_SERIALIZATION = 1, FUSE = 2, THRIFT_SERIALIZATION = 4, PING = 8,
      sizeof_fuse_init_out = 2,
      validAbsolutePath = (\<lambda>s. s \<noteq> [] \<and> hd s = 47),
      compactSerialize = (\<lambda>_. [7]),
      compactDeserialize = (\<lambda>_. Some (mounts [\<lparr>s_mountPath = [47, 97], s_stateDirectory = [47, 98],
         s_bindMountPaths = [[47, 99]], s_connInfo = [1, 2], s_inodeMap = ()\<rparr>])),
      compactSerializeInodeMap = (\<lambda>_. []),
      compactDeserializeInodeMap = (\<lambda>_. Some ())\<rparr>"

definition witness_data :: "unit TakeoverData" where
  "witness_data =
     \<lparr>lockFile = Some 3, thriftSocket = Some 4,
      mountPoints = [\<lparr>mountPath = [47, 97], stateDirectory = [47, 98], bindMounts = [[47, 99]],
                      fuseFD = Some 5, connInfo = [1, 2], inodeMap = ()\<rparr>]\<rparr>"

definition witness_msg :: Message where
  "witness_msg = \<lparr>data = [0, 0, 0, 3, 7], files = [Some 3, Some 4, Some 5]\<rparr>"

definition witness_cache :: BlobCache where
  "witness_cache =
     \<lparr>handle_getObject = (\<lambda>_. None),
      cache_get = (\<lambda>_ _. \<lparr>gr_object = Some \<lparr>blobHash = [1], blobContents = [104, 105]\<rparr>,
                           gr_interestHandle = Some 0\<rparr>)\<rparr>"

definition witness_inode_env :: Env where
  "witness_inode_env =
     \<lparr>blobCache = witness_cache, getBlobThrows = False, overlayThrows = False,
      newPromise = 0, parentIsDotEden = False\<rparr>"

definition witness_unknown_size :: "64 word" where
  "witness_unknown_size = 18446744073709551615"

definition witness_inode :: FileInode where
  "witness_inode =
     \<lparr>state = FileInodeState_of_hash witness_unknown_size (Some [1]), overlayFile = None\<rparr>"

definition witness_materialized :: FileInode where
  "witness_materialized = \<lparr>state = FileInodeState_materialized, overlayFile = Some []\<rparr>"

section \<open>Properties of the big-endian encoding\<close>

lemma length_be32_bytes: "length (be32_bytes w) = 4"
  by (simp add: be32_bytes_def)

lemma be32_read_bytes: "be32_read (be32_bytes w @ rest) = w"
  unfolding be32_read_def be32_bytes_def
  apply simp
  apply (rule bit_word_eqI)
  subgoal for n
    apply (cases "n < 8"; cases "n < 16"; cases "n < 24")
    apply (auto simp: bit_simps)
    done
  done

lemma be32_bytes_read_nth: "be32_bytes (be32_read bs) = [bs ! 0, bs ! 1, bs ! 2, bs ! 3]"
  unfolding be32_read_def be32_bytes_def
  apply simp
  apply (intro conjI bit_word_eqI)
  apply (auto simp: bit_simps dest: bit_imp_le_length)
  done

lemma take4_nth:
  assumes "4 \<le> length bs"
  shows "take 4 bs = [bs ! 0, bs ! 1, bs ! 2, bs ! 3]"
proof (rule nth_equalityI)
  show "length (take 4 bs) = length [bs ! 0, bs ! 1, bs ! 2, bs ! 3]"
    using assms by simp
next
  fix i assume "i < length (take 4 bs)"
  then have "i < 4" by simp
  then consider "i = 0" | "i = 1" | "i = 2" | "i = 3" by linarith
  then show "take 4 bs ! i = [bs ! 0, bs ! 1, bs ! 2, bs ! 3] ! i"
    by cases simp_all
qed

lemma be32_bytes_read:
  assumes "4 \<le> length bs"
  shows "be32_bytes (be32_read bs) = take 4 bs"
  using assms by (simp add: be32_bytes_read_nth take4_nth)

lemma unat_path_length: "n \<le> 4294967295 \<Longrightarrow> unat (of_nat n :: 32 word) = n"
  by (simp add: unat_of_nat)

lemma be32_bytes_3: "be32_bytes 3 = [0, 0, 0, 3]"
  by (simp add: be32_bytes_def drop_bit_eq_div)

section \<open>The proxy hash\<close>

lemma validate_serialized:
  assumes "length h = 20" "length p \<le> 4294967295"
  shows "validate \<lparr>proxy_value = h @ be32_bytes (of_nat (length p)) @ p\<rparr> oid = Inr ()"
  using assms
  by (simp add: validate_def RAW_SIZE_def length_be32_bytes be32_read_bytes unat_path_length Let_def)

lemma validate_malformed:
  "validate ph oid \<noteq> Inr () \<Longrightarrow>
   validate ph oid = Inl (TooShort (length (proxy_value ph)))
   \<or> validate ph oid = Inl InconsistentPathLength"
  by (auto simp: validate_def Let_def split: if_splits)

lemma load_embedded:
  assumes "length h = 20"
  shows "load sha1 st (1 # h) = (Inr \<lparr>proxy_value = h @ [0, 0, 0, 0]\<rparr>, st)"
  using assms
  by (simp add: load_def tryParseEmbeddedProxyHash_def RAW_SIZE_def TYPE_HG_ID_NO_PATH_def
      HgProxyHash_of_path_def prepareToStoreLegacy_def serialize_def be32_bytes_def Let_def)

lemma path_embedded:
  assumes "length h = 20"
  shows "path \<lparr>proxy_value = h @ [0, 0, 0, 0]\<rparr> = Inr []"
    and "revHash \<lparr>proxy_value = h @ [0, 0, 0, 0]\<rparr> = Inr h"
  using assms by (auto simp: path_def revHash_def byteHash_def RAW_SIZE_def)

lemma load_legacy:
  assumes "length oid \<le> 20"
  shows "load sha1 st oid =
     ((case kv st oid of None \<Rightarrow> Inl UnknownProxyHash | Some v \<Rightarrow> HgProxyHash_of_value oid v),
      st\<lparr>gets := gets st @ [oid]\<rparr>)"
  using assms
  by (simp add: load_def tryParseEmbeddedProxyHash_def RAW_SIZE_def LocalStore_get_def
      extractValue_def split: option.splits)

lemma load_unknown_type:
  assumes "length oid > 20" "\<not> (length oid = 21 \<and> oid ! 0 = 1)"
  shows "load sha1 st oid = (Inl (UnknownProxyHashType (length oid) (oid ! 0)), st)"
  using assms
  by (auto simp: load_def tryParseEmbeddedProxyHash_def RAW_SIZE_def TYPE_HG_ID_NO_PATH_def Let_def)

lemma split_24: "v = take 20 v @ take 4 (drop 20 v) @ drop 24 v"
proof -
  have a: "take 4 (drop 20 v) @ drop 4 (drop 20 v) = drop 20 v"
    by (rule append_take_drop_id)
  have b: "drop 4 (drop 20 v) = drop 24 v" by simp
  have c: "take 20 v @ drop 20 v = v"
    by (rule append_take_drop_id)
  show ?thesis
    using a c unfolding b by metis
qed

lemma unat_32_bound: "unat (w :: 32 word) \<le> 4294967295"
proof -
  have "unat w < 2 ^ 32"
    using unsigned_less [of w, where ?'a = nat] by simp
  then show ?thesis by simp
qed

lemma validate_iff:
  "validate \<lparr>proxy_value = v\<rparr> oid = Inr () \<longleftrightarrow>
     (\<exists>h p. length h = 20 \<and> length p \<le> 4294967295 \<and> v = h @ be32_bytes (of_nat (length p)) @ p)"
proof
  assume ok: "validate \<lparr>proxy_value = v\<rparr> oid = Inr ()"
  then have len: "24 \<le> length v" and declared: "length v - 24 = unat (be32_read (drop 20 v))"
    by (auto simp: validate_def RAW_SIZE_def Let_def split: if_splits)
  let ?h = "take 20 v" and ?p = "drop 24 v"
  have plen: "length ?p \<le> 4294967295"
    using declared unat_32_bound [of "be32_read (drop 20 v)"] by simp
  have "of_nat (length ?p) = be32_read (drop 20 v)"
    using declared by simp
  then have "be32_bytes (of_nat (length ?p)) = take 4 (drop 20 v)"
    using len by (simp add: be32_bytes_read)
  then have "v = ?h @ be32_bytes (of_nat (length ?p)) @ ?p"
    using split_24 [of v] by simp
  moreover have "length ?h = 20"
    using len by simp
  ultimately show "\<exists>h p. length h = 20 \<and> length p \<le> 4294967295
      \<and> v = h @ be32_bytes (of_nat (length p)) @ p"
    using plen by blast
next
  assume "\<exists>h p. length h = 20 \<and> length p \<le> 4294967295 \<and> v = h @ be32_bytes (of_nat (length p)) @ p"
  then show "validate \<lparr>proxy_value = v\<rparr> oid = Inr ()"
    using validate_serialized by blast
qed

text \<open>
  Claim C1, as amended. For every path \<open>p\<close> of at most \<open>2^32 - 1\<close> bytes (the empty one
  included) and every 20-byte revision hash \<open>h\<close>, the legacy encoding stores
  \<open>h || big_endian_u32(len p) || p\<close> under the SHA-1 of those bytes, and loading that object
  id from a store that returns the stored bytes yields a proxy hash whose \<open>path()\<close> is \<open>p\<close>
  and whose \<open>revHash()\<close> is \<open>h\<close>. The digest is a parameter, of which only the length of its
  result (20 bytes) is used.
\<close>

theorem legacy_round_trip:
  assumes "length h = 20"
      and "length p \<le> 4294967295"
      and "length (sha1 (h @ be32_bytes (of_nat (length p)) @ p)) = 20"
      and "kv st (sha1 (h @ be32_bytes (of_nat (length p)) @ p))
             = Some (h @ be32_bytes (of_nat (length p)) @ p)"
  shows "prepareToStoreLegacy sha1 p h
           = Inr (sha1 (h @ be32_bytes (of_nat (length p)) @ p),
                  h @ be32_bytes (of_nat (length p)) @ p)
         \<and> (\<exists>ph st'. load sha1 st (sha1 (h @ be32_bytes (of_nat (length p)) @ p)) = (Inr ph, st')
               \<and> path ph = Inr p \<and> revHash ph = Inr h)"
proof -
  let ?buf = "h @ be32_bytes (of_nat (length p)) @ p"
  have enc: "prepareToStoreLegacy sha1 p h = Inr (sha1 ?buf, ?buf)"
    using assms(2) by (simp add: prepareToStoreLegacy_def serialize_def)
  have ld: "load sha1 st (sha1 ?buf)
              = (Inr \<lparr>proxy_value = ?buf\<rparr>, st\<lparr>gets := gets st @ [sha1 ?buf]\<rparr>)"
    using assms by (simp add: load_legacy HgProxyHash_of_value_def validate_serialized)
  have p: "path \<lparr>proxy_value = ?buf\<rparr> = Inr p"
    using assms(1) by (simp add: path_def RAW_SIZE_def length_be32_bytes)
  have r: "revHash \<lparr>proxy_value = ?buf\<rparr> = Inr h"
    using assms(1) by (auto simp add: revHash_def byteHash_def RAW_SIZE_def)
  show ?thesis using enc ld p r by simp
qed

lemma witness_be32: "be32_bytes (of_nat (length [97, 47, 98 :: byte])) = [0, 0, 0, 3]"
  using be32_bytes_3 by simp

text \<open>The round trip of C1 run on the path \<open>a/b\<close>.\<close>

theorem legacy_round_trip_witness:
  "length witness_hash = 20
   \<and> length [97, 47, 98 :: byte] \<le> 4294967295
   \<and> length (witness_sha1 witness_stored) = 20
   \<and> kv witness_store (witness_sha1 witness_stored) = Some witness_stored
   \<and> prepareToStoreLegacy witness_sha1 [97, 47, 98] witness_hash
        = Inr (witness_sha1 witness_stored, witness_stored)
   \<and> (\<exists>ph st'. load witness_sha1 witness_store (witness_sha1 witness_stored) = (Inr ph, st')
          \<and> path ph = Inr [97, 47, 98] \<and> revHash ph = Inr witness_hash)"
proof -
  have h: "length witness_hash = 20"
    by (simp add: witness_hash_def)
  have p: "length [97, 47, 98 :: byte] \<le> 4294967295"
    by simp
  have buf: "witness_hash @ be32_bytes (of_nat (length [97, 47, 98 :: byte])) @ [97, 47, 98]
               = witness_stored"
    unfolding witness_be32 by (simp add: witness_stored_def)
  have s: "length (witness_sha1 witness_stored) = 20"
    by (simp add: witness_sha1_def)
  have k: "kv witness_store (witness_sha1 witness_stored) = Some witness_stored"
    by (simp add: witness_store_def)
  show ?thesis
    using legacy_round_trip [of witness_hash "[97, 47, 98]" witness_sha1 witness_store]
      h s k
    unfolding buf by simp
qed

text \<open>
  Claim C1 as stated, for every non-empty path, fails on a path of \<open>2^32\<close> bytes: the
  \<open>XCHECK\<close> of serialize stops the encoding, so there is no object id to decode.
\<close>

theorem legacy_path_too_large:
  "prepareToStoreLegacy witness_sha1 (replicate 4294967296 97) witness_hash = Inl PathTooLarge"
  by (simp add: prepareToStoreLegacy_def serialize_def)

text \<open>
  Claim C3, as amended. load first tries the embedded shape: an object id of 21 bytes whose
  first byte is \<open>0x01\<close> is decoded from its own bytes and the store is not consulted. Any
  other object id longer than 20 bytes is rejected as an unknown proxy hash type, again
  without a lookup. Only an object id of at most 20 bytes is looked up, once; a missing entry
  fails with the unknown-proxy-hash error, and the bytes found are accepted exactly when
  they are twenty bytes followed by a big-endian length and that many further bytes, and are
  malformed (too short, or inconsistent path length) otherwise.
\<close>

theorem load_cases:
  "(length oid = 21 \<and> oid ! 0 = 1 \<longrightarrow>
      load sha1 st oid = (Inr \<lparr>proxy_value = take 20 (drop 1 oid) @ [0, 0, 0, 0]\<rparr>, st))
   \<and> (length oid > 20 \<and> \<not> (length oid = 21 \<and> oid ! 0 = 1) \<longrightarrow>
        load sha1 st oid = (Inl (UnknownProxyHashType (length oid) (oid ! 0)), st))
   \<and> (length oid \<le> 20 \<longrightarrow>
        snd (load sha1 st oid) = st\<lparr>gets := gets st @ [oid]\<rparr>
        \<and> (kv st oid = None \<longrightarrow> fst (load sha1 st oid) = Inl UnknownProxyHash)
        \<and> (\<forall>v. kv st oid = Some v \<longrightarrow>
              (if \<exists>h p. length h = 20 \<and> length p \<le> 4294967295
                         \<and> v = h @ be32_bytes (of_nat (length p)) @ p
               then fst (load sha1 st oid) = Inr \<lparr>proxy_value = v\<rparr>
               else fst (load sha1 st oid) = Inl (TooShort (length v))
                    \<or> fst (load sha1 st oid) = Inl InconsistentPathLength)))"
proof (intro conjI impI allI)
  assume e: "length oid = 21 \<and> oid ! 0 = 1"
  then obtain h where oid: "oid = 1 # h" and h: "length h = 20"
    by (cases oid) auto
  show "load sha1 st oid = (Inr \<lparr>proxy_value = take 20 (drop 1 oid) @ [0, 0, 0, 0]\<rparr>, st)"
    using load_embedded [OF h] h by (simp add: oid)
next
  assume "length oid > 20 \<and> \<not> (length oid = 21 \<and> oid ! 0 = 1)"
  then show "load sha1 st oid = (Inl (UnknownProxyHashType (length oid) (oid ! 0)), st)"
    using load_unknown_type by blast
next
  assume "length oid \<le> 20"
  then show "snd (load sha1 st oid) = st\<lparr>gets := gets st @ [oid]\<rparr>"
    by (simp add: load_legacy)
next
  assume "length oid \<le> 20" "kv st oid = None"
  then show "fst (load sha1 st oid) = Inl UnknownProxyHash"
    by (simp add: load_legacy)
next
  fix v
  assume short: "length oid \<le> 20" and v: "kv st oid = Some v"
  have ld: "fst (load sha1 st oid) = HgProxyHash_of_value oid v"
    using short v by (simp add: load_legacy)
  show "if \<exists>h p. length h = 20 \<and> length p \<le> 4294967295
                         \<and> v = h @ be32_bytes (of_nat (length p)) @ p
               then fst (load sha1 st oid) = Inr \<lparr>proxy_value = v\<rparr>
               else fst (load sha1 st oid) = Inl (TooShort (length v))
                    \<or> fst (load sha1 st oid) = Inl InconsistentPathLength"
  proof (cases "validate \<lparr>proxy_value = v\<rparr> oid = Inr ()")
    case True
    then show ?thesis
      using validate_iff [of v oid] by (simp add: ld HgProxyHash_of_value_def)
  next
    case False
    then have "validate \<lparr>proxy_value = v\<rparr> oid = Inl (TooShort (length v))
               \<or> validate \<lparr>proxy_value = v\<rparr> oid = Inl InconsistentPathLength"
      using validate_malformed [of "\<lparr>proxy_value = v\<rparr>" oid] by simp
    then show ?thesis
      using False validate_iff [of v oid] by (auto simp: ld HgProxyHash_of_value_def)
  qed
qed

text \<open>
  Claim C3 as stated, that every object id not of the embedded shape is looked up, fails on
  the 21-byte object id that starts with \<open>0x02\<close>: the store holds a well-formed entry for
  it, yet load throws without reading the store.
\<close>

theorem load_unknown_type_without_lookup:
  "load witness_sha1 \<lparr>kv = [2 # witness_hash \<mapsto> witness_stored], gets = []\<rparr> (2 # witness_hash)
     = (Inl (UnknownProxyHashType 21 2), \<lparr>kv = [2 # witness_hash \<mapsto> witness_stored], gets = []\<rparr>)"
  by (simp add: load_def tryParseEmbeddedProxyHash_def RAW_SIZE_def TYPE_HG_ID_NO_PATH_def
      witness_hash_def)

text \<open>The three cases of C3 run on concrete object ids.\<close>

theorem load_cases_witness:
  "load witness_sha1 witness_store (1 # witness_hash)
     = (Inr \<lparr>proxy_value = witness_hash @ [0, 0, 0, 0]\<rparr>, witness_store)
   \<and> load witness_sha1 witness_store (2 # witness_hash)
       = (Inl (UnknownProxyHashType 21 2), witness_store)
   \<and> snd (load witness_sha1 witness_store [5]) = witness_store\<lparr>gets := [[5]]\<rparr>
   \<and> fst (load witness_sha1 witness_store [5]) = Inl UnknownProxyHash"
proof -
  have e: "length (1 # witness_hash) = 21 \<and> (1 # witness_hash) ! 0 = 1"
    by (simp add: witness_hash_def)
  have u: "length (2 # witness_hash) > 20
           \<and> \<not> (length (2 # witness_hash) = 21 \<and> (2 # witness_hash) ! 0 = 1)"
    by (simp add: witness_hash_def)
  have l: "length [5 :: byte] \<le> 20"
    by simp
  have n: "kv witness_store [5] = None"
    by (auto simp: witness_store_def witness_sha1_def dest: arg_cong [where f = length])
  have t: "take 20 (drop 1 (1 # witness_hash)) = witness_hash"
    by (simp add: witness_hash_def)
  have g: "gets witness_store = []"
    by (simp add: witness_store_def)
  show ?thesis
    using load_cases [of "1 # witness_hash" witness_sha1 witness_store, THEN conjunct1, rule_format, OF e]
      load_cases [of "2 # witness_hash" witness_sha1 witness_store, THEN conjunct2, THEN conjunct1, rule_format, OF u]
      load_cases [of "[5]" witness_sha1 witness_store, THEN conjunct2, THEN conjunct2, rule_format, OF l]
      n
    unfolding t by (simp add: g witness_hash_def)
qed

text \<open>
  Claim C4, as amended. For the empty path and a 20-byte revision hash \<open>h\<close>, the object id
  that store returns when it is given no write batch, the one makeEmbeddedProxyHash builds,
  has 21 bytes: \<open>0x01\<close> followed by \<open>h\<close>. Loading it yields the empty path and \<open>h\<close>, and
  leaves the store as it was: nothing is looked up.
\<close>

theorem embedded_round_trip:
  assumes "length h = 20"
  shows "length (makeEmbeddedProxyHash h) = 21
         \<and> makeEmbeddedProxyHash h = 1 # h
         \<and> store sha1 [] h None = Inr (makeEmbeddedProxyHash h, None)
         \<and> (\<exists>ph. load sha1 st (makeEmbeddedProxyHash h) = (Inr ph, st)
                \<and> path ph = Inr [] \<and> revHash ph = Inr h)"
  using assms load_embedded [OF assms, of sha1 st] path_embedded [OF assms]
  by (simp add: makeEmbeddedProxyHash_def TYPE_HG_ID_NO_PATH_def store_def)

text \<open>The embedded round trip of C4 run on a concrete hash.\<close>

theorem embedded_round_trip_witness:
  "length witness_hash = 20
   \<and> makeEmbeddedProxyHash witness_hash = 1 # witness_hash
   \<and> (\<exists>ph. load witness_sha1 witness_store (makeEmbeddedProxyHash witness_hash)
               = (Inr ph, witness_store)
          \<and> path ph = Inr [] \<and> revHash ph = Inr witness_hash)"
proof -
  have h: "length witness_hash = 20"
    by (simp add: witness_hash_def)
  show ?thesis
    using embedded_round_trip [OF h, of witness_sha1 witness_store] h by auto
qed

text \<open>
  Claim C4 as stated, for every encoding of the empty path, fails when store is given a
  write batch: it is the write batch and not the path that selects the form, so the empty
  path is encoded in the legacy form, the object id is a digest of 20 bytes, and loading
  it reads the store.
\<close>

theorem store_with_batch_encodes_empty_path_as_legacy:
  "store witness_sha1 [] witness_hash (Some [])
     = Inr (witness_sha1 (witness_hash @ [0, 0, 0, 0]),
            Some [(witness_sha1 (witness_hash @ [0, 0, 0, 0]), witness_hash @ [0, 0, 0, 0])])
   \<and> length (witness_sha1 (witness_hash @ [0, 0, 0, 0])) = 20
   \<and> load witness_sha1
        \<lparr>kv = [witness_sha1 (witness_hash @ [0, 0, 0, 0]) \<mapsto> witness_hash @ [0, 0, 0, 0]],
         gets = []\<rparr>
        (witness_sha1 (witness_hash @ [0, 0, 0, 0]))
       = (Inr \<lparr>proxy_value = witness_hash @ [0, 0, 0, 0]\<rparr>,
          \<lparr>kv = [witness_sha1 (witness_hash @ [0, 0, 0, 0]) \<mapsto> witness_hash @ [0, 0, 0, 0]],
           gets = [witness_sha1 (witness_hash @ [0, 0, 0, 0])]\<rparr>)"
proof -
  have s: "store witness_sha1 [] witness_hash (Some [])
     = Inr (witness_sha1 (witness_hash @ [0, 0, 0, 0]),
            Some [(witness_sha1 (witness_hash @ [0, 0, 0, 0]), witness_hash @ [0, 0, 0, 0])])"
    by (simp add: store_def prepareToStoreLegacy_def serialize_def storeLegacy_def
        WriteBatch_put_def be32_bytes_def)
  have l: "length (witness_sha1 (witness_hash @ [0, 0, 0, 0])) = 20"
    by (simp add: witness_sha1_def)
  have v: "validate \<lparr>proxy_value = witness_hash @ [0, 0, 0, 0]\<rparr>
             (witness_sha1 (witness_hash @ [0, 0, 0, 0])) = Inr ()"
    using validate_serialized [of witness_hash "[]"]
    by (simp add: witness_hash_def be32_bytes_def)
  have d: "load witness_sha1
        \<lparr>kv = [witness_sha1 (witness_hash @ [0, 0, 0, 0]) \<mapsto> witness_hash @ [0, 0, 0, 0]],
         gets = []\<rparr>
        (witness_sha1 (witness_hash @ [0, 0, 0, 0]))
       = (Inr \<lparr>proxy_value = witness_hash @ [0, 0, 0, 0]\<rparr>,
          \<lparr>kv = [witness_sha1 (witness_hash @ [0, 0, 0, 0]) \<mapsto> witness_hash @ [0, 0, 0, 0]],
           gets = [witness_sha1 (witness_hash @ [0, 0, 0, 0])]\<rparr>)"
    using l v by (simp add: load_legacy HgProxyHash_of_value_def)
  show ?thesis
    using s l d by simp
qed

text \<open>
  Claim C10. Whatever the path \<open>p\<close>, store without a write batch returns the embedded
  object id built from \<open>h\<close> alone, \<open>0x01\<close> followed by the hash bytes. Loading that id
  yields the empty path, so for a non-empty \<open>p\<close> it does not yield \<open>p\<close>.
\<close>

theorem store_without_batch_discards_path:
  assumes "length h = 20"
  shows "store sha1 p h None = Inr (1 # h, None)
         \<and> (\<exists>ph. load sha1 st (1 # h) = (Inr ph, st)
                \<and> path ph = Inr [] \<and> revHash ph = Inr h
                \<and> (p \<noteq> [] \<longrightarrow> path ph \<noteq> Inr p))"
  using assms load_embedded [OF assms, of sha1 st] path_embedded [OF assms]
  by (simp add: makeEmbeddedProxyHash_def TYPE_HG_ID_NO_PATH_def store_def)

text \<open>Claim C10 run on the path \<open>a/b\<close>.\<close>

theorem store_without_batch_discards_path_witness:
  "length witness_hash = 20
   \<and> store witness_sha1 [97, 47, 98] witness_hash None = Inr (1 # witness_hash, None)
   \<and> (\<exists>ph. load witness_sha1 witness_store (1 # witness_hash) = (Inr ph, witness_store)
          \<and> path ph = Inr [] \<and> path ph \<noteq> Inr [97, 47, 98] \<and> revHash ph = Inr witness_hash)"
proof -
  have h: "length witness_hash = 20"
    by (simp add: witness_hash_def)
  show ?thesis
    using store_without_batch_discards_path [OF h, of witness_sha1 "[97, 47, 98]" witness_store] h
    by auto
qed

section \<open>Takeover\<close>

lemma computeCompatibleVersion_loop_sorted:
  assumes "sorted xs" and "\<And>b. best = Some b \<Longrightarrow> \<forall>x\<in>set xs. b \<le> x"
  shows "computeCompatibleVersion_loop xs S best =
           (if set xs \<inter> S = {} then best else Some (Max (set xs \<inter> S)))"
  using assms
proof (induction xs arbitrary: best)
  case Nil
  then show ?case by simp
next
  case (Cons x xs)
  have sorted_tl: "sorted xs" and x_le: "\<forall>y\<in>set xs. x \<le> y"
    using Cons.prems(1) by simp_all
  have not_gt: "\<not> (best \<noteq> None \<and> the best > x)"
    using Cons.prems(2) by fastforce
  show ?case
  proof (cases "x \<in> S")
    case False
    have "computeCompatibleVersion_loop (x # xs) S best = computeCompatibleVersion_loop xs S best"
      using False not_gt by (cases best) auto
    also have "\<dots> = (if set xs \<inter> S = {} then best else Some (Max (set xs \<inter> S)))"
      using Cons.prems(2) by (intro Cons.IH sorted_tl) simp
    finally show ?thesis using False by simp
  next
    case True
    have "computeCompatibleVersion_loop (x # xs) S best = computeCompatibleVersion_loop xs S (Some x)"
      using True not_gt by (cases best) auto
    also have "\<dots> = (if set xs \<inter> S = {} then Some x else Some (Max (set xs \<inter> S)))"
      using x_le by (intro Cons.IH sorted_tl) simp
    finally have eq: "computeCompatibleVersion_loop (x # xs) S best =
        (if set xs \<inter> S = {} then Some x else Some (Max (set xs \<inter> S)))" .
    have ins: "set (x # xs) \<inter> S = insert x (set xs \<inter> S)"
      using True by auto
    show ?thesis
    proof (cases "set xs \<inter> S = {}")
      case True
      then show ?thesis using eq ins by simp
    next
      case False
      have "Max (insert x (set xs \<inter> S)) = max x (Max (set xs \<inter> S))"
        using False by (simp add: Max_insert)
      moreover have "x \<le> Max (set xs \<inter> S)"
        using False x_le by (meson Max_in finite_Int finite_set IntD1)
      ultimately show ?thesis using eq ins False by (simp add: max_def)
    qed
  qed
qed

text \<open>
  Claim C7. For a finite set of offered versions and any set of supported ones,
  computeCompatibleVersion returns the greatest version that is in both sets, and returns
  none exactly when no version is in both; the supported set is \<open>{1, 3, 4}\<close>.
\<close>

theorem computeCompatibleVersion_max:
  assumes "finite versions"
  shows "computeCompatibleVersion versions supported =
           (if versions \<inter> supported = {} then None else Some (Max (versions \<inter> supported)))
         \<and> (computeCompatibleVersion versions supported = None \<longleftrightarrow> versions \<inter> supported = {})
         \<and> kSupportedTakeoverVersions = {1, 3, 4}"
proof -
  have "computeCompatibleVersion_loop (sorted_list_of_set versions) supported None =
          (if set (sorted_list_of_set versions) \<inter> supported = {} then None
           else Some (Max (set (sorted_list_of_set versions) \<inter> supported)))"
    by (rule computeCompatibleVersion_loop_sorted) simp_all
  then have main: "computeCompatibleVersion versions supported =
           (if versions \<inter> supported = {} then None else Some (Max (versions \<inter> supported)))"
    using assms by (simp add: computeCompatibleVersion_def)
  have "kSupportedTakeoverVersions = {1, 3, 4}"
    by (simp add: kSupportedTakeoverVersions_def kTakeoverProtocolVersionOne_def
      kTakeoverProtocolVersionThree_def kTakeoverProtocolVersionFour_def)
  with main show ?thesis by simp
qed

text \<open>Claim C7 run on the offers \<open>{2, 3, 4, 5}\<close> and \<open>{2, 5}\<close>.\<close>

theorem computeCompatibleVersion_max_witness:
  "finite {2, 3, 4, 5 :: int}
   \<and> computeCompatibleVersion {2, 3, 4, 5} {1, 3, 4} = Some 4
   \<and> computeCompatibleVersion {2, 5} {1, 3, 4} = None"
proof -
  have a: "{2, 3, 4, 5} \<inter> {1, 3, 4} = {3, 4 :: int}" by auto
  have b: "{2, 5} \<inter> {1, 3, 4} = ({} :: int set)" by auto
  have f: "finite {2, 3, 4, 5 :: int}" "finite {2, 5 :: int}" by simp_all
  show ?thesis
    using computeCompatibleVersion_max [OF f(1), of "{1, 3, 4}", THEN conjunct1] computeCompatibleVersion_max [OF f(2), of "{1, 3, 4}", THEN conjunct1]
    unfolding a b by simp
qed

lemma bindE_simps [simp]:
  "bindE (Inl e) f = Inl e"
  "bindE (Inr x) f = f x"
  by (simp_all add: bindE_def)

lemma makeAbsolutePaths_valid:
  "list_all (validAbsolutePath E) ps \<Longrightarrow> makeAbsolutePaths E ps = Inr ps"
  by (induction ps) (simp_all add: makeAbsolutePath_def)

lemma fromSerializedMount_toSerializedMount:
  "wf_mount E m \<Longrightarrow> fromSerializedMount E (toSerializedMount m) = Inr (m\<lparr>fuseFD := None\<rparr>)"
  by (simp add: wf_mount_def fromSerializedMount_def toSerializedMount_def
      makeAbsolutePaths_valid makeAbsolutePath_def)

lemma fromSerializedMounts_toSerializedMount:
  "list_all (wf_mount E) ms \<Longrightarrow>
   fromSerializedMounts E (map toSerializedMount ms) = Inr (map (\<lambda>m. m\<lparr>fuseFD := None\<rparr>) ms)"
  by (induction ms) (simp_all add: fromSerializedMount_toSerializedMount)

lemma thrift_method:
  assumes "capability_flags_disjoint E"
  shows "(FUSE E OR THRIFT_SERIALIZATION E) AND (CUSTOM_SERIALIZATION E OR THRIFT_SERIALIZATION E)
           = THRIFT_SERIALIZATION E"
    and "(FUSE E OR THRIFT_SERIALIZATION E OR PING E) AND (CUSTOM_SERIALIZATION E OR THRIFT_SERIALIZATION E)
           = THRIFT_SERIALIZATION E"
    and "THRIFT_SERIALIZATION E \<noteq> CUSTOM_SERIALIZATION E"
proof -
  have d: "CUSTOM_SERIALIZATION E AND FUSE E = 0" "CUSTOM_SERIALIZATION E AND THRIFT_SERIALIZATION E = 0"
      "CUSTOM_SERIALIZATION E AND PING E = 0" "FUSE E AND THRIFT_SERIALIZATION E = 0"
      "THRIFT_SERIALIZATION E AND PING E = 0" "THRIFT_SERIALIZATION E \<noteq> 0"
    using assms by (simp_all add: capability_flags_disjoint_def)
  show "(FUSE E OR THRIFT_SERIALIZATION E) AND (CUSTOM_SERIALIZATION E OR THRIFT_SERIALIZATION E)
           = THRIFT_SERIALIZATION E"
    using d by (simp add: bit.conj_disj_distrib bit.conj_disj_distrib2 and.commute)
  show "(FUSE E OR THRIFT_SERIALIZATION E OR PING E) AND (CUSTOM_SERIALIZATION E OR THRIFT_SERIALIZATION E)
           = THRIFT_SERIALIZATION E"
    using d by (simp add: bit.conj_disj_distrib bit.conj_disj_distrib2 and.commute)
  show "THRIFT_SERIALIZATION E \<noteq> CUSTOM_SERIALIZATION E"
    using d by auto
qed

lemma getProtocolVersion_three:
  "getProtocolVersion (be32_bytes 3 @ payload) = Inr (3, payload)"
  by (simp add: getProtocolVersion_def readBE32_def be32_read_bytes length_be32_bytes
      MessageType_ERROR_def MessageType_MOUNTS_def kTakeoverProtocolVersionThree_def)

lemma capabilitesToVersion_four:
  assumes "capabilitesToVersion E caps = Inr kTakeoverProtocolVersionFour"
  shows "caps = (FUSE E OR THRIFT_SERIALIZATION E OR PING E)"
  using assms
  by (simp add: capabilitesToVersion_def kTakeoverProtocolVersionFour_def
      kTakeoverProtocolVersionThree_def kTakeoverProtocolVersionOne_def
      kTakeoverProtocolVersionNeverSupported_def split: if_splits)

text \<open>
  Claim C5. For capabilities that map to protocol version 4, serializeThrift (and so
  serialize) writes 3 as the big-endian version word of the body. A peer that reads the
  body finds version 3, takes the capabilities of version 3 and decodes the payload to the
  same mounts: mount path, state directory, bind mounts, connection info and inode map, the
  descriptor left empty. The Thrift codec is a parameter that is assumed to decode what it
  encoded; the mounts are well formed and the capability flags are disjoint bits.
\<close>

theorem thrift_version_four_advertised_as_three:
  assumes four: "capabilitesToVersion E caps = Inr kTakeoverProtocolVersionFour"
      and flags: "capability_flags_disjoint E"
      and wf: "list_all (wf_mount E) (mountPoints d)"
      and codec: "compactDeserialize E (compactSerialize E (mounts (map toSerializedMount (mountPoints d))))
                    = Some (mounts (map toSerializedMount (mountPoints d)))"
  shows "\<exists>payload c3.
           serializeThrift E caps d = Inr (be32_bytes 3 @ payload)
           \<and> serialize_body E caps d = Inr (be32_bytes 3 @ payload)
           \<and> getProtocolVersion (be32_bytes 3 @ payload) = Inr (kTakeoverProtocolVersionThree, payload)
           \<and> versionToCapabilites E kTakeoverProtocolVersionThree = Inr c3
           \<and> deserialize_body E c3 payload =
               Inr \<lparr>lockFile = None, thriftSocket = None,
                    mountPoints = map (\<lambda>m. m\<lparr>fuseFD := None\<rparr>) (mountPoints d)\<rparr>"
proof -
  let ?payload = "compactSerialize E (mounts (map toSerializedMount (mountPoints d)))"
  let ?c3 = "FUSE E OR THRIFT_SERIALIZATION E"
  have ser: "serializeThrift E caps d = Inr (be32_bytes 3 @ ?payload)"
    using four by (simp add: serializeThrift_def kTakeoverProtocolVersionFour_def
        kTakeoverProtocolVersionThree_def)
  have caps: "caps = (FUSE E OR THRIFT_SERIALIZATION E OR PING E)"
    using four by (rule capabilitesToVersion_four)
  have body: "serialize_body E caps d = Inr (be32_bytes 3 @ ?payload)"
    using ser thrift_method [OF flags] by (simp add: serialize_body_def caps)
  have ver: "getProtocolVersion (be32_bytes 3 @ ?payload) = Inr (kTakeoverProtocolVersionThree, ?payload)"
    by (simp add: getProtocolVersion_three kTakeoverProtocolVersionThree_def)
  have c3: "versionToCapabilites E kTakeoverProtocolVersionThree = Inr ?c3"
    by (simp add: versionToCapabilites_def kTakeoverProtocolVersionThree_def
        kTakeoverProtocolVersionOne_def kTakeoverProtocolVersionNeverSupported_def)
  have "deserializeThrift E ?payload =
          Inr \<lparr>lockFile = None, thriftSocket = None,
               mountPoints = map (\<lambda>m. m\<lparr>fuseFD := None\<rparr>) (mountPoints d)\<rparr>"
    using codec wf by (simp add: deserializeThrift_def fromSerializedMounts_toSerializedMount)
  then have de: "deserialize_body E ?c3 ?payload =
          Inr \<lparr>lockFile = None, thriftSocket = None,
               mountPoints = map (\<lambda>m. m\<lparr>fuseFD := None\<rparr>) (mountPoints d)\<rparr>"
    using thrift_method [OF flags] by (simp add: deserialize_body_def)
  show ?thesis using ser body ver c3 de by blast
qed

text \<open>Claim C5 run on one mount.\<close>

theorem thrift_version_four_advertised_as_three_witness:
  "capabilitesToVersion witness_env 14 = Inr kTakeoverProtocolVersionFour
   \<and> capability_flags_disjoint witness_env
   \<and> list_all (wf_mount witness_env) (mountPoints witness_data)
   \<and> serializeThrift witness_env 14 witness_data = Inr (be32_bytes 3 @ [7])
   \<and> deserialize_body witness_env 6 [7] =
        Inr \<lparr>lockFile = None, thriftSocket = None,
             mountPoints = [\<lparr>mountPath = [47, 97], stateDirectory = [47, 98], bindMounts = [[47, 99]],
                      fuseFD = None, connInfo = [1, 2], inodeMap = ()\<rparr>]\<rparr>"
proof -
  have four: "capabilitesToVersion witness_env 14 = Inr kTakeoverProtocolVersionFour"
    by (simp add: capabilitesToVersion_def witness_env_def kTakeoverProtocolVersionFour_def)
  have flags: "capability_flags_disjoint witness_env"
    by (simp add: capability_flags_disjoint_def witness_env_def)
  have wf: "list_all (wf_mount witness_env) (mountPoints witness_data)"
    by (simp add: wf_mount_def witness_env_def witness_data_def)
  have codec: "compactDeserialize witness_env (compactSerialize witness_env
                  (mounts (map toSerializedMount (mountPoints witness_data))))
                = Some (mounts (map toSerializedMount (mountPoints witness_data)))"
    by (simp add: witness_env_def witness_data_def toSerializedMount_def)
  have c3: "versionToCapabilites witness_env kTakeoverProtocolVersionThree = Inr 6"
    by (simp add: versionToCapabilites_def witness_env_def kTakeoverProtocolVersionThree_def
        kTakeoverProtocolVersionOne_def kTakeoverProtocolVersionNeverSupported_def)
  have s: "serializeThrift witness_env 14 witness_data = Inr (be32_bytes 3 @ [7])"
    unfolding serializeThrift_def four
    by (simp add: kTakeoverProtocolVersionFour_def kTakeoverProtocolVersionThree_def
        witness_env_def)
  from thrift_version_four_advertised_as_three [OF four flags wf codec] s c3 four flags wf
  show ?thesis by (auto simp: witness_data_def)
qed

lemma attach_fuseFDs:
  assumes "length ms + k = length fs"
  shows "map fuseFD (map (\<lambda>(n, mountInfo). mountInfo\<lparr>fuseFD := fs ! (n + k)\<rparr>) (enumerate 0 ms))
           = drop k fs"
proof (rule nth_equalityI)
  show "length (map fuseFD (map (\<lambda>(n, mountInfo). mountInfo\<lparr>fuseFD := fs ! (n + k)\<rparr>) (enumerate 0 ms)))
          = length (drop k fs)"
    using assms by simp
next
  fix i
  assume "i < length (map fuseFD (map (\<lambda>(n, mountInfo). mountInfo\<lparr>fuseFD := fs ! (n + k)\<rparr>) (enumerate 0 ms)))"
  then have i: "i < length ms" by simp
  have "fs ! (k + i) = fs ! (i + k)" by (simp add: add.commute)
  then show "map fuseFD (map (\<lambda>(n, mountInfo). mountInfo\<lparr>fuseFD := fs ! (n + k)\<rparr>) (enumerate 0 ms)) ! i
          = drop k fs ! i"
    using i assms by (simp add: nth_enumerate_eq)
qed

text \<open>
  Claim C6. serialize appends to the message's files the lock file, the thrift socket and
  then the descriptor of every mount, in the order of the mounts. Whenever deserialize
  succeeds, the message carried two files more than the mounts decoded, the lock file is
  the first of them, the thrift socket the second, and the mounts got the remaining ones in
  order. Whenever the body decodes and the number of files is not the number of mounts plus
  two, deserialize throws.
\<close>

theorem takeover_file_order:
  "(serialize_msg E caps d msg = Inr (d', msg') \<longrightarrow>
      files msg' = files msg @ [lockFile d, thriftSocket d] @ map fuseFD (mountPoints d))
   \<and> (deserialize_msg E msg = Inr r \<longrightarrow>
        length (files msg) = length (mountPoints r) + 2
        \<and> lockFile r = files msg ! 0 \<and> thriftSocket r = files msg ! 1
        \<and> map fuseFD (mountPoints r) = drop 2 (files msg))
   \<and> (getProtocolVersion (data msg) = Inr (v, buf) \<and> versionToCapabilites E v = Inr c
        \<and> deserialize_body E c buf = Inr d0
        \<and> length (files msg) \<noteq> length (mountPoints d0) + 2 \<longrightarrow>
        deserialize_msg E msg = Inl (FdCountMismatch (length (mountPoints d0)) (length (files msg))))"
proof (intro conjI impI)
  assume "serialize_msg E caps d msg = Inr (d', msg')"
  then show "files msg' = files msg @ [lockFile d, thriftSocket d] @ map fuseFD (mountPoints d)"
    by (auto simp: serialize_msg_def split: sum.splits)
next
  assume ok: "deserialize_msg E msg = Inr r"
  then obtain d1 where
        d1: "length (mountPoints d1) + 2 = length (files msg)"
    and r: "r = d1\<lparr>lockFile := files msg ! 0, thriftSocket := files msg ! 1,
              mountPoints := map (\<lambda>(n, mountInfo). mountInfo\<lparr>fuseFD := files msg ! (n + 2)\<rparr>)
                    (enumerate 0 (mountPoints d1))\<rparr>"
    by (auto simp: deserialize_msg_def bindE_def mountPointFilesOffset_def
        split: sum.splits if_splits prod.splits)
  have len: "length (mountPoints r) = length (mountPoints d1)"
    by (simp add: r)
  show "length (files msg) = length (mountPoints r) + 2"
    using d1 len by simp
  show "lockFile r = files msg ! 0" by (simp add: r)
  show "thriftSocket r = files msg ! 1" by (simp add: r)
  show "map fuseFD (mountPoints r) = drop 2 (files msg)"
    using attach_fuseFDs [OF d1] by (simp add: r)
next
  assume "getProtocolVersion (data msg) = Inr (v, buf) \<and> versionToCapabilites E v = Inr c
        \<and> deserialize_body E c buf = Inr d0
        \<and> length (files msg) \<noteq> length (mountPoints d0) + 2"
  then show "deserialize_msg E msg = Inl (FdCountMismatch (length (mountPoints d0)) (length (files msg)))"
    by (auto simp: deserialize_msg_def mountPointFilesOffset_def)
qed

lemma witness_caps: "versionToCapabilites witness_env 3 = Inr 6"
    by (simp add: versionToCapabilites_def witness_env_def kTakeoverProtocolVersionThree_def
        kTakeoverProtocolVersionOne_def kTakeoverProtocolVersionNeverSupported_def)

lemma witness_version: "getProtocolVersion [0, 0, 0, 3, 7] = Inr (3, [7])"
  using getProtocolVersion_three [of "[7]"] by (simp add: be32_bytes_3)

lemma witness_body: "deserialize_body witness_env 6 [7] =
   Inr \<lparr>lockFile = None, thriftSocket = None,
             mountPoints = [\<lparr>mountPath = [47, 97], stateDirectory = [47, 98], bindMounts = [[47, 99]],
                      fuseFD = None, connInfo = [1, 2], inodeMap = ()\<rparr>]\<rparr>"
  by (simp add: deserialize_body_def deserializeThrift_def witness_env_def
      fromSerializedMount_def makeAbsolutePath_def)

text \<open>Claim C6 run on one mount, and on a message that lacks a descriptor.\<close>

theorem takeover_file_order_witness:
  "serialize_msg witness_env 14 witness_data \<lparr>data = [], files = []\<rparr>
     = Inr (witness_data\<lparr>lockFile := None, thriftSocket := None,
              mountPoints := map (\<lambda>mount. mount\<lparr>fuseFD := None\<rparr>) (mountPoints witness_data)\<rparr>,
            witness_msg)
   \<and> files witness_msg = [lockFile witness_data, thriftSocket witness_data]
                           @ map fuseFD (mountPoints witness_data)
   \<and> deserialize_msg witness_env witness_msg = Inr witness_data
   \<and> drop 2 (files witness_msg) = map fuseFD (mountPoints witness_data)
   \<and> deserialize_msg witness_env (witness_msg\<lparr>files := [Some 3, Some 4]\<rparr>)
        = Inl (FdCountMismatch 1 2)"
proof -
  have s: "serialize_msg witness_env 14 witness_data \<lparr>data = [], files = []\<rparr>
     = Inr (witness_data\<lparr>lockFile := None, thriftSocket := None,
              mountPoints := map (\<lambda>mount. mount\<lparr>fuseFD := None\<rparr>) (mountPoints witness_data)\<rparr>,
            witness_msg)"
    by (simp add: serialize_msg_def serialize_body_def serializeThrift_def capabilitesToVersion_def
        kTakeoverProtocolVersionFour_def kTakeoverProtocolVersionThree_def be32_bytes_3
        witness_env_def witness_msg_def witness_data_def)
  have d: "deserialize_msg witness_env witness_msg = Inr witness_data"
    by (simp add: deserialize_msg_def witness_msg_def witness_version witness_caps witness_body
        mountPointFilesOffset_def witness_data_def enumerate_eq_zip)
  have b: "getProtocolVersion (data (witness_msg\<lparr>files := [Some 3, Some 4]\<rparr>)) = Inr (3, [7])
        \<and> versionToCapabilites witness_env 3 = Inr 6
        \<and> deserialize_body witness_env 6 [7] = Inr \<lparr>lockFile = None, thriftSocket = None,
             mountPoints = [\<lparr>mountPath = [47, 97], stateDirectory = [47, 98], bindMounts = [[47, 99]],
                      fuseFD = None, connInfo = [1, 2], inodeMap = ()\<rparr>]\<rparr>
        \<and> length (files (witness_msg\<lparr>files := [Some 3, Some 4]\<rparr>)) \<noteq>
            length (mountPoints \<lparr>lockFile = None, thriftSocket = None,
             mountPoints = [\<lparr>mountPath = [47, 97], stateDirectory = [47, 98], bindMounts = [[47, 99]],
                      fuseFD = None, connInfo = [1, 2], inodeMap = ()\<rparr>]\<rparr>) + 2"
    by (simp add: witness_msg_def witness_version witness_caps witness_body)
  from takeover_file_order [THEN conjunct1, rule_format, OF s]
       takeover_file_order [THEN conjunct2, THEN conjunct1, rule_format, OF d]
       takeover_file_order [THEN conjunct2, THEN conjunct2, rule_format, OF b]
       s d
  show ?thesis by simp
qed

section \<open>The file inode\<close>

lemma good_Aborted [simp]: "good (Aborted a, w) \<longleftrightarrow> a \<noteq> InvariantCheckFailed"
  by (simp add: good_def)

lemma good_Returned [simp]: "good (Returned x, w) \<longleftrightarrow> state_ok (state w)"
  by (simp add: good_def)

lemma good_Threw [simp]: "good (Threw e, w) \<longleftrightarrow> state_ok (state w)"
  by (simp add: good_def)

lemma good_Awaiting [simp]: "good (Awaiting, w) \<longleftrightarrow> state_ok (state w)"
  by (simp add: good_def)

lemma unlock_good: "good r \<Longrightarrow> unlock r = r"
  by (cases r; cases "fst r") (auto simp: unlock_def state_ok_def)

lemma good_unlock: "good r \<Longrightarrow> good (unlock r)"
  by (simp add: unlock_good)

lemma good_forget: "good r \<Longrightarrow> good (forget r)"
  by (cases r; cases "fst r") (auto simp: forget_def)

lemma state_ok_of_hash: "state_ok (FileInodeState_of_hash kUnknownSize h)"
  by (cases h)
    (simp_all add: state_ok_def checkInvariants_def FileInodeState_of_hash_def
      CoverageSet_empty_def CoverageSet_clear_def)

lemma state_ok_materialized: "state_ok FileInodeState_materialized"
  by (simp add: state_ok_def checkInvariants_def FileInodeState_materialized_def
      CoverageSet_empty_def CoverageSet_clear_def)

lemma state_ok_setMaterialized:
  "blobLoadingPromise s = None \<Longrightarrow> state_ok (setMaterialized s)"
  by (simp add: state_ok_def checkInvariants_def setMaterialized_def
      CoverageSet_empty_def CoverageSet_clear_def)

lemma getCachedBlob_ok:
  assumes "state_ok s" "getCachedBlob env s interest = Inr (blob, s')"
  shows "state_ok s' \<and> tag s' = tag s \<and> tag s \<noteq> MATERIALIZED_IN_OVERLAY
         \<and> (blob = None \<longrightarrow> CoverageSet_empty (readByteRanges s'))"
  using assms
  by (auto simp: getCachedBlob_def state_ok_def checkInvariants_def isMaterialized_def Let_def
      CoverageSet_empty_def CoverageSet_clear_def
      split: if_splits option.splits Tag.splits)

lemma getCachedBlob_not_invariant:
  "getCachedBlob env s interest \<noteq> Inl InvariantCheckFailed"
  by (auto simp: getCachedBlob_def Let_def split: if_splits option.splits)

lemma startLoadingData_good:
  assumes "state_ok (state w)" "CoverageSet_empty (readByteRanges (state w))"
  shows "good (startLoadingData env w interest)"
proof (cases "tag (state w) = BLOB_NOT_LOADING")
  case False
  then show ?thesis by (simp add: startLoadingData_def)
next
  case True
  show ?thesis
  proof (cases "nonMaterializedState (state w)")
    case None
    then show ?thesis using True by (simp add: startLoadingData_def)
  next
    case (Some nm)
    have "state_ok ((state w)\<lparr>blobLoadingPromise := Some (newPromise env), tag := BLOB_LOADING\<rparr>)"
      using assms Some by (simp add: state_ok_def checkInvariants_def)
    then show ?thesis
      using True Some assms(1) by (simp add: startLoadingData_def good_unlock)
  qed
qed

lemma loadFinished_good:
  assumes "state_ok (state w)"
  shows "good (loadFinished tryResult w)"
proof (cases "tag (state w)")
  case BLOB_NOT_LOADING
  then show ?thesis by (simp add: loadFinished_def)
next
  case BLOB_LOADING
  show ?thesis
  proof (cases "blobLoadingPromise (state w)")
    case None
    then show ?thesis using BLOB_LOADING by (simp add: loadFinished_def)
  next
    case (Some promise)
    have a: "state_ok ((state w)\<lparr>blobLoadingPromise := None, tag := BLOB_NOT_LOADING\<rparr>)"
      using assms BLOB_LOADING by (simp add: state_ok_def checkInvariants_def)
    have b: "state_ok ((state w)\<lparr>blobLoadingPromise := None, tag := BLOB_NOT_LOADING,
                                  interestHandle := h\<rparr>)" for h
      using assms BLOB_LOADING by (simp add: state_ok_def checkInvariants_def)
    show ?thesis
      using BLOB_LOADING Some a b
      by (cases tryResult) (simp_all add: loadFinished_def good_unlock Let_def)
  qed
next
  case MATERIALIZED_IN_OVERLAY
  then show ?thesis using assms by (simp add: loadFinished_def good_unlock)
qed

lemma materializeNow_good:
  assumes "state_ok (state w)"
  shows "good (materializeNow env w blob)"
proof -
  have "tag (state w) = BLOB_NOT_LOADING \<Longrightarrow> state_ok (setMaterialized (state w))"
    using assms by (intro state_ok_setMaterialized) (simp add: state_ok_def checkInvariants_def)
  then show ?thesis
    using assms
    by (auto simp: materializeNow_def split: option.splits sum.splits)
qed

lemma materializeAndTruncate_good:
  assumes "state_ok (state w)"
      and "materializeAndTruncate env w = (Returned x, w')"
  shows "state_ok ((state w')\<lparr>blobLoadingPromise := None\<rparr>)"
proof -
  have "state_ok (setMaterialized ((state w)\<lparr>blobLoadingPromise := None\<rparr>))"
    by (intro state_ok_setMaterialized) simp
  moreover have "(setMaterialized (state w))\<lparr>blobLoadingPromise := None\<rparr>
                   = setMaterialized ((state w)\<lparr>blobLoadingPromise := None\<rparr>)"
    by (simp add: setMaterialized_def)
  ultimately show ?thesis
    using assms(2) by (auto simp: materializeAndTruncate_def split: if_splits sum.splits)
qed

lemma materializeAndTruncate_other:
  assumes "state_ok (state w)"
  shows "materializeAndTruncate env w = (Threw e, w') \<Longrightarrow> w' = w"
    and "materializeAndTruncate env w \<noteq> (Awaiting, w')"
    and "materializeAndTruncate env w \<noteq> (Aborted InvariantCheckFailed, w')"
  by (auto simp: materializeAndTruncate_def split: if_splits sum.splits)

lemma truncateInOverlay_good:
  assumes "state_ok (state w)"
  shows "good (truncateInOverlay env w)"
  using assms by (auto simp: truncateInOverlay_def split: sum.splits)

lemma runWhileDataLoaded_good:
  assumes ok: "state_ok (state w)"
      and fn: "\<And>w' b. state_ok (state w') \<Longrightarrow> good (fn w' b)"
  shows "good (runWhileDataLoaded env w interest blob fn)"
proof (cases "tag (state w)")
  case BLOB_NOT_LOADING
  show ?thesis
  proof (cases "blob = None")
    case False
    then show ?thesis
      using BLOB_NOT_LOADING ok fn [of w blob]
      by (auto simp: runWhileDataLoaded_def good_unlock)
  next
    case True
    show ?thesis
    proof (cases "getCachedBlob env (state w) interest")
      case (Inl a)
      then show ?thesis
        using BLOB_NOT_LOADING True getCachedBlob_not_invariant [of env "state w" interest]
        by (simp add: runWhileDataLoaded_def)
    next
      case (Inr r)
      obtain blob' s where r: "r = (blob', s)" by (cases r)
      have s: "state_ok s" "blob' = None \<longrightarrow> CoverageSet_empty (readByteRanges s)"
        using getCachedBlob_ok [OF ok] Inr r by simp_all
      show ?thesis
      proof (cases blob')
        case None
        then show ?thesis
          using BLOB_NOT_LOADING True Inr r s
          by (simp add: runWhileDataLoaded_def startLoadingData_good)
      next
        case (Some b)
        then show ?thesis
          using BLOB_NOT_LOADING True Inr r s fn [of "w\<lparr>state := s\<rparr>" "Some b"]
          by (simp add: runWhileDataLoaded_def good_unlock)
      qed
    qed
  qed
next
  case BLOB_LOADING
  then show ?thesis
    using ok by (simp add: runWhileDataLoaded_def good_unlock split: option.splits)
next
  case MATERIALIZED_IN_OVERLAY
  then show ?thesis
    using ok fn [of w None] by (simp add: runWhileDataLoaded_def good_unlock)
qed

lemma runWhileDataLoaded_resume_good:
  assumes "state_ok (state w)" "\<And>w' b. state_ok (state w') \<Longrightarrow> good (fn w' b)"
  shows "good (runWhileDataLoaded_resume env w interest blob fn)"
  using runWhileDataLoaded_good [OF assms]
  by (simp add: runWhileDataLoaded_resume_def)

lemma after_materializeNow_good:
  assumes ok: "state_ok (state w)"
      and fn: "\<And>w'. state_ok (state w') \<Longrightarrow> good (fn w')"
  shows "good (case materializeNow env w b of
                 (Returned _, w') \<Rightarrow> unlock (fn w')
               | (Threw e, w') \<Rightarrow> unlock (Threw e, w')
               | (Awaiting, w') \<Rightarrow> unlock (Awaiting, w')
               | (Aborted a, w') \<Rightarrow> (Aborted a, w'))"
proof -
  obtain out w' where m: "materializeNow env w b = (out, w')"
    by (cases "materializeNow env w b")
  have g: "good (out, w')"
    using materializeNow_good [OF ok, of env b] m by simp
  show ?thesis
    using g fn [of w'] by (cases out) (simp_all add: m good_unlock)
qed

lemma runWhileMaterialized_good:
  assumes ok: "state_ok (state w)"
      and fn: "\<And>w'. state_ok (state w') \<Longrightarrow> good (fn w')"
  shows "good (runWhileMaterialized env w blob fn)"
proof (cases "tag (state w)")
  case BLOB_NOT_LOADING
  show ?thesis
  proof (cases "blob = None")
    case False
    then show ?thesis
      using BLOB_NOT_LOADING after_materializeNow_good [OF ok fn, where env = env]
      by (auto simp: runWhileMaterialized_def)
  next
    case True
    show ?thesis
    proof (cases "getCachedBlob env (state w) UnlikelyNeededAgain")
      case (Inl a)
      then show ?thesis
        using BLOB_NOT_LOADING True getCachedBlob_not_invariant [of env "state w" UnlikelyNeededAgain]
        by (simp add: runWhileMaterialized_def)
    next
      case (Inr r)
      obtain blob' s where r: "r = (blob', s)" by (cases r)
      have s: "state_ok s" "blob' = None \<longrightarrow> CoverageSet_empty (readByteRanges s)"
        using getCachedBlob_ok [OF ok] Inr r by simp_all
      show ?thesis
      proof (cases blob')
        case None
        then show ?thesis
          using BLOB_NOT_LOADING True Inr r s
          by (simp add: runWhileMaterialized_def startLoadingData_good)
      next
        case (Some b)
        have "state_ok (state (w\<lparr>state := s\<rparr>))"
          using s by simp
        from after_materializeNow_good [OF this fn, where env = env and b = b]
        show ?thesis
          using BLOB_NOT_LOADING True Inr r Some
          by (simp add: runWhileMaterialized_def)
      qed
    qed
  qed
next
  case BLOB_LOADING
  then show ?thesis
    using ok by (simp add: runWhileMaterialized_def good_unlock split: option.splits)
next
  case MATERIALIZED_IN_OVERLAY
  then show ?thesis
    using ok fn [of w] by (simp add: runWhileMaterialized_def good_unlock)
qed

lemma runWhileMaterialized_resume_good:
  assumes "state_ok (state w)" "\<And>w'. state_ok (state w') \<Longrightarrow> good (fn w')"
  shows "good (runWhileMaterialized_resume env w blob fn)"
  using runWhileMaterialized_good [OF assms]
  by (simp add: runWhileMaterialized_resume_def)

lemma truncateAndRun_materialize_good:
  assumes ok: "state_ok (state w)"
      and fn: "\<And>w'. state_ok (state w') \<Longrightarrow> good (fn w')"
  shows "good (truncateAndRun_materialize env w fn)"
proof -
  obtain out w' where m: "materializeAndTruncate env w = (out, w')"
    by (cases "materializeAndTruncate env w")
  show ?thesis
  proof (cases out)
    case (Returned x)
    have "state_ok (state (w'\<lparr>state := (state w')\<lparr>blobLoadingPromise := None\<rparr>\<rparr>))"
      using materializeAndTruncate_good [OF ok] m Returned by simp
    then show ?thesis
      using fn m Returned by (simp add: truncateAndRun_materialize_def good_unlock)
  next
    case (Threw e)
    then show ?thesis
      using materializeAndTruncate_other(1) [OF ok, of env e w'] m ok
      by (simp add: truncateAndRun_materialize_def good_unlock)
  next
    case Awaiting
    then show ?thesis
      using materializeAndTruncate_other(2) [OF ok, of env w'] m by simp
  next
    case (Aborted a)
    then show ?thesis
      using materializeAndTruncate_other(3) [OF ok, of env w'] m
      by (auto simp: truncateAndRun_materialize_def)
  qed
qed

lemma truncateAndRun_good:
  assumes ok: "state_ok (state w)"
      and fn: "\<And>w'. state_ok (state w') \<Longrightarrow> good (fn w')"
  shows "good (truncateAndRun env w fn)"
proof (cases "tag (state w)")
  case BLOB_NOT_LOADING
  then show ?thesis
    using truncateAndRun_materialize_good [OF ok fn] by (simp add: truncateAndRun_def)
next
  case BLOB_LOADING
  then show ?thesis
    using truncateAndRun_materialize_good [OF ok fn] by (simp add: truncateAndRun_def)
next
  case MATERIALIZED_IN_OVERLAY
  obtain out w' where t: "truncateInOverlay env w = (out, w')"
    by (cases "truncateInOverlay env w")
  have g: "good (out, w')"
    using truncateInOverlay_good [OF ok, of env] t by simp
  show ?thesis
    using MATERIALIZED_IN_OVERLAY g fn [of w']
    by (cases out) (simp_all add: truncateAndRun_def t good_unlock)
qed

lemma read_fn_good:
  assumes "state_ok (state w)"
  shows "good (read_fn env size' off w blob)"
  using assms
  by (auto simp: read_fn_def Let_def state_ok_def checkInvariants_def Cursor_cloneAtMost_def
      split: sum.splits option.splits Tag.splits)

lemma readAll_fn_good:
  assumes "state_ok (state w)"
  shows "good (readAll_fn env w blob)"
  using assms
  by (auto simp: readAll_fn_def split: sum.splits option.splits Tag.splits)

lemma writeImpl_good:
  assumes "state_ok (state w)"
  shows "good (writeImpl env w iov off)"
  using assms
  by (auto simp: writeImpl_def good_unlock split: sum.splits prod.splits)

lemma setAttrs_good:
  assumes "state_ok (state w)"
  shows "good (setAttrs env desired w)"
  using assms
  by (auto simp: setAttrs_def split: sum.splits option.splits)

lemma fallocate_fn_good:
  assumes "state_ok (state w)"
  shows "good (fallocate_fn env offset' length' w)"
  using assms
  by (auto simp: fallocate_fn_def split: sum.splits)

lemma stat_good:
  assumes "state_ok (state w)"
  shows "good (stat kUnknownSize env w)"
  using assms
  by (auto simp: stat_def Let_def good_unlock split: sum.splits option.splits)

lemma stat_resume_good:
  assumes "state_ok (state w)"
  shows "good (stat_resume w st size')"
proof (cases "isMaterialized (state w)")
  case True
  then show ?thesis
    using assms by (simp add: stat_resume_def unlock_good)
next
  case False
  show ?thesis
  proof (cases "nonMaterializedState (state w)")
    case None
    then show ?thesis using False by (simp add: stat_resume_def)
  next
    case (Some nm)
    have "state_ok ((state w)\<lparr>nonMaterializedState := Some (nm\<lparr>nm_size := size'\<rparr>)\<rparr>)"
      using assms False
      by (auto simp: state_ok_def checkInvariants_def isMaterialized_def split: Tag.splits)
    then show ?thesis
      using False Some by (simp add: stat_resume_def unlock_good)
  qed
qed

lemma fsync_good:
  assumes "state_ok (state w)"
  shows "good (fsync env w)"
  using assms by (simp add: fsync_def good_unlock)

lemma exec_good:
  assumes ok: "state_ok (state w)"
  shows "good (exec kUnknownSize env ev w)"
proof (cases ev)
  case (Read size' off)
  then show ?thesis
    using runWhileDataLoaded_good [OF ok read_fn_good]
    by (simp add: exec_def read_def good_forget)
next
  case (Read_resume size' off blob)
  then show ?thesis
    using runWhileDataLoaded_resume_good [OF ok read_fn_good]
    by (simp add: exec_def read_resume_def good_forget)
next
  case (ReadAll hint)
  then show ?thesis
    using runWhileDataLoaded_good [OF ok readAll_fn_good]
    by (simp add: exec_def readAll_def good_forget)
next
  case (ReadAll_resume hint blob)
  then show ?thesis
    using runWhileDataLoaded_resume_good [OF ok readAll_fn_good]
    by (simp add: exec_def readAll_resume_def good_forget)
next
  case (Write_bufvec buf off)
  then show ?thesis
    using runWhileMaterialized_good [OF ok writeImpl_good]
    by (simp add: exec_def write_bufvec_def good_forget)
next
  case (Write_string buf off)
  then show ?thesis
    using runWhileMaterialized_good [OF ok writeImpl_good] writeImpl_good [OF ok]
    by (simp add: exec_def write_string_def good_forget good_unlock)
next
  case (Write_resume buf off blob)
  then show ?thesis
    using runWhileMaterialized_resume_good [OF ok writeImpl_good]
    by (simp add: exec_def write_bufvec_resume_def good_forget)
next
  case (Setattr desired)
  then show ?thesis
    using runWhileMaterialized_good [OF ok setAttrs_good] truncateAndRun_good [OF ok setAttrs_good] ok
    by (simp add: exec_def setattr_def good_forget Let_def)
next
  case (Setattr_resume desired blob)
  then show ?thesis
    using runWhileMaterialized_resume_good [OF ok setAttrs_good]
    by (simp add: exec_def setattr_resume_def good_forget)
next
  case (Fallocate offset' length')
  then show ?thesis
    using runWhileMaterialized_good [OF ok fallocate_fn_good]
    by (simp add: exec_def fallocate_def good_forget)
next
  case (Fallocate_resume offset' length' blob)
  then show ?thesis
    using runWhileMaterialized_resume_good [OF ok fallocate_fn_good]
    by (simp add: exec_def fallocate_resume_def good_forget)
next
  case Fsync
  then show ?thesis
    using fsync_good [OF ok] by (simp add: exec_def good_forget)
next
  case Stat
  then show ?thesis
    using stat_good [OF ok] by (simp add: exec_def good_forget)
next
  case (Stat_resume st size')
  then show ?thesis
    using stat_resume_good [OF ok] by (simp add: exec_def good_forget)
next
  case (LoadFinished tryResult)
  then show ?thesis
    using loadFinished_good [OF ok] by (simp add: exec_def good_forget)
qed

lemma reachable_state_ok: "reachable kUnknownSize w \<Longrightarrow> state_ok (state w)"
proof (induction rule: reachable.induct)
  case (from_hash h)
  show ?case by (simp add: state_ok_of_hash)
next
  case (from_overlay bytes)
  show ?case by (simp add: state_ok_of_hash)
next
  case (created bytes)
  show ?case by (simp add: state_ok_materialized)
next
  case (step w env ev out w')
  have "good (exec kUnknownSize env ev w)"
    using step.IH by (rule exec_good)
  then show ?case
    using step.hyps(2,3) by (cases out) (simp_all add: stopped_def)
qed

lemma state_ok_materialized_invariant: "state_ok s \<Longrightarrow> materialized_invariant s"
  by (auto simp: state_ok_def materialized_invariant_def checkInvariants_def)

lemma read_fn_past_end:
  assumes "tag (state w) = BLOB_NOT_LOADING" "length (blobContents b) \<le> unat off"
  shows "\<exists>w'. read_fn env size' off w (Some b) = (Returned ([], True), w')"
proof (cases "length (blobContents b) = unat off")
  case True
  then show ?thesis
    using assms(1)
    by (simp add: read_fn_def Let_def Cursor_canAdvance_def Cursor_cloneAtMost_def
        Cursor_isAtEnd_def)
next
  case False
  then have "\<not> Cursor_canAdvance (blobContents b) (unat off)"
    using assms(2) by (simp add: Cursor_canAdvance_def)
  then show ?thesis
    using assms(1) by (simp add: read_fn_def Let_def)
qed

lemma read_fn_past_end_unlock:
  assumes "state_ok (state w)" "tag (state w) = BLOB_NOT_LOADING"
      and "length (blobContents b) \<le> unat off"
  shows "\<exists>w'. unlock (read_fn env size' off w (Some b)) = (Returned ([], True), w')"
  using read_fn_past_end [OF assms(2,3), of env size'] read_fn_good [OF assms(1), of env size' off "Some b"]
  by (auto simp: unlock_good)

text \<open>
  Claim C9. A read at an offset at or beyond the size of the blob, on an inode that is not
  materialized and not loading, returns an empty buffer and reports the end of the file:
  both when read finds the blob \<open>b\<close> through getCachedBlob, and when its continuation runs
  with the blob \<open>b\<close> that a load delivered.
\<close>

theorem read_past_end:
  assumes "reachable kUnknownSize w"
      and "tag (state w) = BLOB_NOT_LOADING"
      and "0 \<le> sint off"
      and "Blob_getSize b \<le> unat off"
  shows "(\<forall>s. getCachedBlob env (state w) WantHandle = Inr (Some b, s) \<longrightarrow>
            (\<exists>w'. read env w size' off = (Returned ([], True), w')))
         \<and> (\<exists>w'. read_resume env w size' off (Some b) = (Returned ([], True), w'))"
proof (intro conjI allI impI)
  have ok: "state_ok (state w)"
    using assms(1) by (rule reachable_state_ok)
  have len: "length (blobContents b) \<le> unat off"
    using assms(4) by (simp add: Blob_getSize_def)
  show "\<exists>w'. read_resume env w size' off (Some b) = (Returned ([], True), w')"
    using read_fn_past_end_unlock [OF ok assms(2) len, of env size'] assms(2)
    by (simp add: read_resume_def runWhileDataLoaded_resume_def runWhileDataLoaded_def)
  fix s
  assume cached: "getCachedBlob env (state w) WantHandle = Inr (Some b, s)"
  have s: "state_ok s" "tag s = BLOB_NOT_LOADING"
    using getCachedBlob_ok [OF ok cached] assms(2) by simp_all
  have "\<exists>w'. unlock (read_fn env size' off (w\<lparr>state := s\<rparr>) (Some b)) = (Returned ([], True), w')"
    using s len by (intro read_fn_past_end_unlock) simp_all
  then show "\<exists>w'. read env w size' off = (Returned ([], True), w')"
    using assms(2,3) cached by (simp add: read_def runWhileDataLoaded_def)
qed

lemma witness_inode_reachable: "reachable witness_unknown_size witness_inode"
  unfolding witness_inode_def by (rule reachable.from_hash)

lemma witness_inode_state:
  "state witness_inode =
     \<lparr>tag = BLOB_NOT_LOADING,
      nonMaterializedState = Some \<lparr>nm_hash = [1], nm_size = witness_unknown_size\<rparr>,
      blobLoadingPromise = None, interestHandle = None, readByteRanges = {}\<rparr>"
  by (simp add: witness_inode_def FileInodeState_of_hash_def CoverageSet_clear_def)

lemma witness_cached:
  "getCachedBlob witness_inode_env (state witness_inode) WantHandle
     = Inr (Some \<lparr>blobHash = [1], blobContents = [104, 105]\<rparr>,
            (state witness_inode)\<lparr>interestHandle := Some 0\<rparr>)"
  by (simp add: getCachedBlob_def witness_inode_state isMaterialized_def witness_inode_env_def
      witness_cache_def InterestHandle_getObject_def)

text \<open>Claim C9 run on a blob of two bytes, read at offset 2.\<close>

theorem read_past_end_witness:
  "reachable witness_unknown_size witness_inode
   \<and> tag (state witness_inode) = BLOB_NOT_LOADING
   \<and> 0 \<le> sint (2 :: 64 word)
   \<and> Blob_getSize \<lparr>blobHash = [1], blobContents = [104, 105]\<rparr> \<le> unat (2 :: 64 word)
   \<and> (\<exists>w'. read witness_inode_env witness_inode 4096 2 = (Returned ([], True), w'))
   \<and> (\<exists>w'. read_resume witness_inode_env witness_inode 4096 2
               (Some \<lparr>blobHash = [1], blobContents = [104, 105]\<rparr>) = (Returned ([], True), w'))"
proof -
  have t: "tag (state witness_inode) = BLOB_NOT_LOADING"
    by (simp add: witness_inode_state)
  have o: "0 \<le> sint (2 :: 64 word)"
    by simp
  have l: "Blob_getSize \<lparr>blobHash = [1], blobContents = [104, 105]\<rparr> \<le> unat (2 :: 64 word)"
    by (simp add: Blob_getSize_def)
  show ?thesis
    using read_past_end [OF witness_inode_reachable t o l, of witness_inode_env 4096]
      witness_cached witness_inode_reachable t o l
    by blast
qed

text \<open>
  Claim C2. In every reachable state of a file inode, if the tag is
  \<open>MATERIALIZED_IN_OVERLAY\<close> then the non-materialized record, the loading promise and the
  interest handle are absent and the read byte ranges are empty. No event (read, write,
  setattr, stat, fallocate, fsync, their continuations, the end of a load) ever stops in
  checkInvariants, and the state that an event leaves is reachable again and satisfies the
  same invariant.
\<close>

theorem materialized_state_invariant:
  assumes "reachable kUnknownSize w"
  shows "materialized_invariant (state w)
         \<and> (\<forall>env ev. fst (exec kUnknownSize env ev w) \<noteq> Aborted InvariantCheckFailed)
         \<and> (\<forall>env ev. \<not> stopped (fst (exec kUnknownSize env ev w)) \<longrightarrow>
               reachable kUnknownSize (snd (exec kUnknownSize env ev w))
               \<and> materialized_invariant (state (snd (exec kUnknownSize env ev w))))"
proof (intro conjI allI impI)
  have ok: "state_ok (state w)"
    using assms by (rule reachable_state_ok)
  show "materialized_invariant (state w)"
    using ok by (rule state_ok_materialized_invariant)
  fix env ev
  show "fst (exec kUnknownSize env ev w) \<noteq> Aborted InvariantCheckFailed"
    using exec_good [OF ok, where env = env and ev = ev and kUnknownSize = kUnknownSize]
    by (auto simp: good_def)
  assume run: "\<not> stopped (fst (exec kUnknownSize env ev w))"
  show r: "reachable kUnknownSize (snd (exec kUnknownSize env ev w))"
  proof (rule reachable.step)
    show "reachable kUnknownSize w" by (rule assms)
    show "exec kUnknownSize env ev w = (fst (exec kUnknownSize env ev w), snd (exec kUnknownSize env ev w))" by simp
    show "\<not> stopped (fst (exec kUnknownSize env ev w))" by (rule run)
  qed
  show "materialized_invariant (state (snd (exec kUnknownSize env ev w)))"
    using r by (rule state_ok_materialized_invariant [OF reachable_state_ok])
qed

lemma witness_setattr:
  "exec witness_unknown_size witness_inode_env (Setattr \<lparr>desired_size = Some 0\<rparr>) witness_inode
     = (Returned (), witness_materialized)"
  by (simp add: exec_def forget_def setattr_def witness_inode_env_def truncateAndRun_def
      truncateAndRun_materialize_def witness_inode_state materializeAndTruncate_def
      Overlay_createEmptyFile_def setMaterialized_def setAttrs_def Overlay_truncate_def
      Overlay_getFileSize_def unlock_def checkInvariants_def CoverageSet_empty_def
      CoverageSet_clear_def witness_materialized_def FileInodeState_materialized_def)

text \<open>Claim C2 run on an inode that a setattr to size 0 materializes.\<close>

theorem materialized_state_invariant_witness:
  "reachable witness_unknown_size witness_inode
   \<and> exec witness_unknown_size witness_inode_env (Setattr \<lparr>desired_size = Some 0\<rparr>) witness_inode
       = (Returned (), witness_materialized)
   \<and> reachable witness_unknown_size witness_materialized
   \<and> tag (state witness_materialized) = MATERIALIZED_IN_OVERLAY
   \<and> nonMaterializedState (state witness_materialized) = None
   \<and> blobLoadingPromise (state witness_materialized) = None
   \<and> interestHandle (state witness_materialized) = None
   \<and> CoverageSet_empty (readByteRanges (state witness_materialized))"
proof -
  have t: "tag (state witness_materialized) = MATERIALIZED_IN_OVERLAY"
    by (simp add: witness_materialized_def FileInodeState_materialized_def)
  have n: "\<not> stopped (fst (exec witness_unknown_size witness_inode_env (Setattr \<lparr>desired_size = Some 0\<rparr>) witness_inode))"
    by (simp add: witness_setattr stopped_def)
  have r: "reachable witness_unknown_size witness_materialized"
    using materialized_state_invariant [OF witness_inode_reachable, THEN conjunct2, THEN conjunct2,
        rule_format, OF n]
    by (simp add: witness_setattr)
  show ?thesis
    using materialized_state_invariant [OF r, THEN conjunct1] t r witness_setattr
      witness_inode_reachable
    by (simp add: materialized_invariant_def)
qed

lemma carries_over_refl [simp]: "carries_over w w"
  by (simp add: carries_over_def)

lemma carries_over_trans: "carries_over a b \<Longrightarrow> carries_over b c \<Longrightarrow> carries_over a c"
  by (auto simp: carries_over_def)

lemma carries_over_overlay [simp]: "carries_over w (w'\<lparr>overlayFile := f\<rparr>) = carries_over w w'"
  by (simp add: carries_over_def)

lemma snd_unlock [simp]: "snd (unlock r) = snd r"
  by (cases r; cases "fst r") (auto simp: unlock_def)

lemma snd_forget [simp]: "snd (forget r) = snd r"
  by (simp add: forget_def)

lemma getCachedBlob_carries:
  assumes "getCachedBlob env s interest = Inr (blob, s')"
  shows "tag s' = tag s \<and> nonMaterializedState s' = nonMaterializedState s"
  using assms
  by (auto simp: getCachedBlob_def Let_def split: if_splits option.splits)

lemma startLoadingData_carries: "carries_over w (snd (startLoadingData env w interest))"
  by (auto simp: startLoadingData_def carries_over_def split: option.splits)

lemma loadFinished_carries: "carries_over w (snd (loadFinished tryResult w))"
  by (auto simp: loadFinished_def carries_over_def Let_def split: Tag.splits option.splits sum.splits)

lemma materializeNow_carries: "carries_over w (snd (materializeNow env w blob))"
  by (auto simp: materializeNow_def carries_over_def setMaterialized_def
      split: option.splits sum.splits)

lemma materializeAndTruncate_carries:
  "carries_over w ((snd (materializeAndTruncate env w))
     \<lparr>state := (state (snd (materializeAndTruncate env w)))\<lparr>blobLoadingPromise := None\<rparr>\<rparr>)"
  by (auto simp: materializeAndTruncate_def carries_over_def setMaterialized_def
      split: option.splits sum.splits)

lemma materializeAndTruncate_carries': "carries_over w (snd (materializeAndTruncate env w))"
  by (auto simp: materializeAndTruncate_def carries_over_def setMaterialized_def
      split: option.splits sum.splits)

lemma truncateInOverlay_carries: "carries_over w (snd (truncateInOverlay env w))"
  by (auto simp: truncateInOverlay_def split: sum.splits)

lemma runWhileDataLoaded_carries:
  assumes fn: "\<And>w' b. carries_over w' (snd (fn w' b))"
  shows "carries_over w (snd (runWhileDataLoaded env w interest blob fn))"
proof (cases "tag (state w)")
  case BLOB_NOT_LOADING
  show ?thesis
  proof (cases "if blob = None then getCachedBlob env (state w) interest else Inr (blob, state w)")
    case (Inl a)
    then show ?thesis using BLOB_NOT_LOADING by (simp add: runWhileDataLoaded_def)
  next
    case (Inr r)
    obtain blob' s where r: "r = (blob', s)" by (cases r)
    have "tag s = tag (state w) \<and> nonMaterializedState s = nonMaterializedState (state w)"
      using Inr r getCachedBlob_carries [of env "state w" interest blob' s]
      by (auto split: if_splits)
    then have c: "carries_over w (w\<lparr>state := s\<rparr>)"
      by (simp add: carries_over_def)
    show ?thesis
    proof (cases blob')
      case None
      then show ?thesis
        using BLOB_NOT_LOADING Inr r
          carries_over_trans [OF c startLoadingData_carries [of "w\<lparr>state := s\<rparr>" env interest]]
        by (simp add: runWhileDataLoaded_def)
    next
      case (Some b)
      then show ?thesis
        using BLOB_NOT_LOADING Inr r carries_over_trans [OF c fn [of "w\<lparr>state := s\<rparr>" "Some b"]]
        by (simp add: runWhileDataLoaded_def)
    qed
  qed
next
  case BLOB_LOADING
  then show ?thesis by (simp add: runWhileDataLoaded_def split: option.splits)
next
  case MATERIALIZED_IN_OVERLAY
  then show ?thesis using fn [of w None] by (simp add: runWhileDataLoaded_def)
qed

lemma runWhileDataLoaded_resume_carries:
  assumes "\<And>w' b. carries_over w' (snd (fn w' b))"
  shows "carries_over w (snd (runWhileDataLoaded_resume env w interest blob fn))"
  using runWhileDataLoaded_carries [of fn, OF assms]
  by (simp add: runWhileDataLoaded_resume_def)

lemma after_materializeNow_carries:
  assumes fn: "\<And>w'. carries_over w' (snd (fn w'))"
  shows "carries_over w (snd (case materializeNow env w b of
                 (Returned _, w') \<Rightarrow> unlock (fn w')
               | (Threw e, w') \<Rightarrow> unlock (Threw e, w')
               | (Awaiting, w') \<Rightarrow> unlock (Awaiting, w')
               | (Aborted a, w') \<Rightarrow> (Aborted a, w')))"
proof -
  obtain out w' where m: "materializeNow env w b = (out, w')"
    by (cases "materializeNow env w b")
  have c: "carries_over w w'"
    using materializeNow_carries [of w env b] m by simp
  show ?thesis
    using c carries_over_trans [OF c fn [of w']] by (cases out) (simp_all add: m)
qed

lemma runWhileMaterialized_carries:
  assumes fn: "\<And>w'. carries_over w' (snd (fn w'))"
  shows "carries_over w (snd (runWhileMaterialized env w blob fn))"
proof (cases "tag (state w)")
  case BLOB_NOT_LOADING
  show ?thesis
  proof (cases "if blob = None then getCachedBlob env (state w) UnlikelyNeededAgain
                else Inr (blob, state w)")
    case (Inl a)
    then show ?thesis using BLOB_NOT_LOADING by (simp add: runWhileMaterialized_def)
  next
    case (Inr r)
    obtain blob' s where r: "r = (blob', s)" by (cases r)
    have "tag s = tag (state w) \<and> nonMaterializedState s = nonMaterializedState (state w)"
      using Inr r getCachedBlob_carries [of env "state w" UnlikelyNeededAgain blob' s]
      by (auto split: if_splits)
    then have c: "carries_over w (w\<lparr>state := s\<rparr>)"
      by (simp add: carries_over_def)
    show ?thesis
    proof (cases blob')
      case None
      then show ?thesis
        using BLOB_NOT_LOADING Inr r
          carries_over_trans [OF c startLoadingData_carries [of "w\<lparr>state := s\<rparr>" env UnlikelyNeededAgain]]
        by (simp add: runWhileMaterialized_def)
    next
      case (Some b)
      then show ?thesis
        using BLOB_NOT_LOADING Inr r
          carries_over_trans [OF c after_materializeNow_carries [of fn "w\<lparr>state := s\<rparr>" env b, OF fn]]
        by (simp add: runWhileMaterialized_def)
    qed
  qed
next
  case BLOB_LOADING
  then show ?thesis by (simp add: runWhileMaterialized_def split: option.splits)
next
  case MATERIALIZED_IN_OVERLAY
  then show ?thesis using fn [of w] by (simp add: runWhileMaterialized_def)
qed

lemma runWhileMaterialized_resume_carries:
  assumes "\<And>w'. carries_over w' (snd (fn w'))"
  shows "carries_over w (snd (runWhileMaterialized_resume env w blob fn))"
  using runWhileMaterialized_carries [of fn, OF assms]
  by (simp add: runWhileMaterialized_resume_def)

lemma truncateAndRun_materialize_carries:
  assumes fn: "\<And>w'. carries_over w' (snd (fn w'))"
  shows "carries_over w (snd (truncateAndRun_materialize env w fn))"
proof -
  obtain out w' where m: "materializeAndTruncate env w = (out, w')"
    by (cases "materializeAndTruncate env w")
  have c: "carries_over w (w'\<lparr>state := (state w')\<lparr>blobLoadingPromise := None\<rparr>\<rparr>)"
    and c': "carries_over w w'"
    using materializeAndTruncate_carries [of w env] materializeAndTruncate_carries' [of w env] m
    by simp_all
  show ?thesis
    using c' carries_over_trans [OF c fn]
    by (cases out) (simp_all add: truncateAndRun_materialize_def m)
qed

lemma truncateAndRun_carries:
  assumes fn: "\<And>w'. carries_over w' (snd (fn w'))"
  shows "carries_over w (snd (truncateAndRun env w fn))"
proof (cases "tag (state w)")
  case BLOB_NOT_LOADING
  then show ?thesis
    using truncateAndRun_materialize_carries [of fn, OF fn] by (simp add: truncateAndRun_def)
next
  case BLOB_LOADING
  then show ?thesis
    using truncateAndRun_materialize_carries [of fn, OF fn] by (simp add: truncateAndRun_def)
next
  case MATERIALIZED_IN_OVERLAY
  obtain out w' where t: "truncateInOverlay env w = (out, w')"
    by (cases "truncateInOverlay env w")
  have c: "carries_over w w'"
    using truncateInOverlay_carries [of w env] t by simp
  show ?thesis
    using MATERIALIZED_IN_OVERLAY c carries_over_trans [OF c fn [of w']]
    by (cases out) (simp_all add: truncateAndRun_def t)
qed

lemma read_fn_carries: "carries_over w (snd (read_fn env size' off w blob))"
  by (auto simp: read_fn_def Let_def carries_over_def Cursor_cloneAtMost_def
      split: sum.splits option.splits)

lemma readAll_fn_carries: "carries_over w (snd (readAll_fn env w blob))"
  by (auto simp: readAll_fn_def split: sum.splits option.splits Tag.splits)

lemma writeImpl_carries: "carries_over w (snd (writeImpl env w iov off))"
  by (auto simp: writeImpl_def split: sum.splits prod.splits)

lemma setAttrs_carries: "carries_over w (snd (setAttrs env desired w))"
  by (auto simp: setAttrs_def split: sum.splits option.splits)

lemma fallocate_fn_carries: "carries_over w (snd (fallocate_fn env offset' length' w))"
  by (auto simp: fallocate_fn_def split: sum.splits)

lemma stat_unchanged: "snd (stat kUnknownSize env w) = w"
  by (auto simp: stat_def Let_def split: sum.splits option.splits)

lemma exec_carries:
  assumes "\<And>st size'. ev \<noteq> Stat_resume st size'"
  shows "carries_over w (snd (exec kUnknownSize env ev w))"
proof (cases ev)
  case (Read size' off)
  then show ?thesis
    using runWhileDataLoaded_carries [of "read_fn env size' off", OF read_fn_carries]
    by (simp add: exec_def read_def)
next
  case (Read_resume size' off blob)
  then show ?thesis
    using runWhileDataLoaded_resume_carries [of "read_fn env size' off", OF read_fn_carries]
    by (simp add: exec_def read_resume_def)
next
  case (ReadAll hint)
  then show ?thesis
    using runWhileDataLoaded_carries [of "readAll_fn env", OF readAll_fn_carries]
    by (simp add: exec_def readAll_def)
next
  case (ReadAll_resume hint blob)
  then show ?thesis
    using runWhileDataLoaded_resume_carries [of "readAll_fn env", OF readAll_fn_carries]
    by (simp add: exec_def readAll_resume_def)
next
  case (Write_bufvec buf off)
  then show ?thesis
    using runWhileMaterialized_carries [of "\<lambda>w'. writeImpl env w' buf off", OF writeImpl_carries]
    by (simp add: exec_def write_bufvec_def)
next
  case (Write_string buf off)
  then show ?thesis
    using runWhileMaterialized_carries [of "\<lambda>w'. writeImpl env w' buf off", OF writeImpl_carries]
      writeImpl_carries [of w env buf off]
    by (simp add: exec_def write_string_def)
next
  case (Write_resume buf off blob)
  then show ?thesis
    using runWhileMaterialized_resume_carries [of "\<lambda>w'. writeImpl env w' buf off", OF writeImpl_carries]
    by (simp add: exec_def write_bufvec_resume_def)
next
  case (Setattr desired)
  then show ?thesis
    using runWhileMaterialized_carries [of "setAttrs env desired", OF setAttrs_carries]
      truncateAndRun_carries [of "setAttrs env desired", OF setAttrs_carries]
    by (simp add: exec_def setattr_def Let_def)
next
  case (Setattr_resume desired blob)
  then show ?thesis
    using runWhileMaterialized_resume_carries [of "setAttrs env desired", OF setAttrs_carries]
    by (simp add: exec_def setattr_resume_def)
next
  case (Fallocate offset' length')
  then show ?thesis
    using runWhileMaterialized_carries [of "fallocate_fn env offset' length'", OF fallocate_fn_carries]
    by (simp add: exec_def fallocate_def)
next
  case (Fallocate_resume offset' length' blob)
  then show ?thesis
    using runWhileMaterialized_resume_carries [of "fallocate_fn env offset' length'", OF fallocate_fn_carries]
    by (simp add: exec_def fallocate_resume_def)
next
  case Fsync
  then show ?thesis by (simp add: exec_def fsync_def)
next
  case Stat
  then show ?thesis by (simp add: exec_def stat_unchanged)
next
  case (Stat_resume st size')
  then show ?thesis using assms by simp
next
  case (LoadFinished tryResult)
  then show ?thesis using loadFinished_carries by (simp add: exec_def)
qed

lemma stat_resume_memoizes:
  assumes "state_ok (state w)" "\<not> isMaterialized (state w)"
  shows "\<exists>w'. stat_resume w st size' = (Returned (updateBlockCount (st\<lparr>st_size := size'\<rparr>)), w')
              \<and> memoized size' w' \<and> \<not> isMaterialized (state w')"
proof -
  obtain nm where nm: "nonMaterializedState (state w) = Some nm"
    using assms
    by (auto simp: state_ok_def checkInvariants_def isMaterialized_def split: Tag.splits)
  let ?w' = "w\<lparr>state := (state w)\<lparr>nonMaterializedState := Some (nm\<lparr>nm_size := size'\<rparr>)\<rparr>\<rparr>"
  have "checkInvariants (state ?w')"
    using assms by (auto simp: state_ok_def checkInvariants_def isMaterialized_def split: Tag.splits)
  then have "stat_resume w st size' = (Returned (updateBlockCount (st\<lparr>st_size := size'\<rparr>)), ?w')"
    using assms(2) nm by (simp add: stat_resume_def unlock_def)
  moreover have "memoized size' ?w'" "\<not> isMaterialized (state ?w')"
    using assms(2) by (simp_all add: memoized_def isMaterialized_def)
  ultimately show ?thesis by blast
qed

lemma stat_memoized:
  assumes "state_ok (state w)" "\<not> isMaterialized (state w)" "memoized size' w"
      and "size' \<noteq> kUnknownSize"
  shows "\<exists>st'. stat kUnknownSize env w = (Returned (StatReady st'), w) \<and> st_size st' = size'"
  using assms
  by (auto simp: stat_def memoized_def Let_def unlock_def state_ok_def
      updateBlockCount_def split: option.splits)

lemma memoized_carries:
  assumes "memoized size' w" "carries_over w w'"
  shows "memoized size' w' \<or> isMaterialized (state w')"
  using assms by (auto simp: memoized_def carries_over_def isMaterialized_def)

lemma stat_resume_keeps_memoized:
  assumes "memoized size' w"
  shows "memoized size' (snd (stat_resume w st size')) \<or> isMaterialized (state (snd (stat_resume w st size')))"
  using assms
  by (auto simp: stat_resume_def memoized_def isMaterialized_def unlock_def
      split: option.splits if_splits)

lemma stat_first_fetches:
  assumes "reachable kUnknownSize w"
      and "\<not> isMaterialized (state w)"
      and "nonMaterializedState (state w) = Some nm"
      and "nm_size nm = kUnknownSize"
  shows "stat kUnknownSize env w = (Returned (StatFetchesSize (nm_hash nm) initStatData), w)"
proof -
  have ok: "checkInvariants (state w)"
    using reachable_state_ok [OF assms(1)] by (simp add: state_ok_def)
  show ?thesis
    using assms(2-4) ok by (simp add: stat_def unlock_def)
qed

lemma stat_resume_reachable:
  assumes a: "reachable kUnknownSize w1" "\<not> isMaterialized (state w1)"
  shows "\<exists>st' w2. stat_resume w1 st size' = (Returned st', w2) \<and> st_size st' = size'
                   \<and> memoized size' w2 \<and> \<not> isMaterialized (state w2) \<and> reachable kUnknownSize w2"
proof -
  obtain w2 where r: "stat_resume w1 st size' = (Returned (updateBlockCount (st\<lparr>st_size := size'\<rparr>)), w2)"
      and m: "memoized size' w2" "\<not> isMaterialized (state w2)"
    using stat_resume_memoizes [OF reachable_state_ok [OF a(1)] a(2), of st size'] by auto
  have "reachable kUnknownSize w2"
  proof (rule reachable.step)
    show "reachable kUnknownSize w1" using a by simp
    show "exec kUnknownSize env (Stat_resume st size') w1 = (Returned (), w2)"
      by (simp add: exec_def forget_def r)
    show "\<not> stopped (Returned ())" by (simp add: stopped_def)
  qed
  moreover have "st_size (updateBlockCount (st\<lparr>st_size := size'\<rparr>)) = size'"
    by (simp add: updateBlockCount_def Let_def)
  ultimately show ?thesis
    using r m by blast
qed

lemma exec_keeps_memoized:
  assumes a: "memoized size' w3" "\<forall>st s. ev = Stat_resume st s \<longrightarrow> s = size'"
  shows "memoized size' (snd (exec kUnknownSize env' ev w3))
         \<or> isMaterialized (state (snd (exec kUnknownSize env' ev w3)))"
proof (cases "\<exists>st s. ev = Stat_resume st s")
  case True
  then obtain st where ev: "ev = Stat_resume st size'"
    using a(2) by blast
  have "snd (exec kUnknownSize env' ev w3) = snd (stat_resume w3 st size')"
    by (simp add: ev exec_def)
  then show ?thesis
    using stat_resume_keeps_memoized [OF a(1), of st] by simp
next
  case False
  have "carries_over w3 (snd (exec kUnknownSize env' ev w3))"
  proof (rule exec_carries)
    fix st s
    show "ev \<noteq> Stat_resume st s" using False by blast
  qed
  then show ?thesis
    using memoized_carries [OF a(1)] by blast
qed

text \<open>
  Claim C8, as amended. On a reachable inode that is not materialized and whose size is
  unknown (its size field holds \<open>kUnknownSize\<close>), stat asks the object store for the size
  of the blob. When the size \<open>size'\<close> arrives and the inode is still not materialized, the
  continuation returns it and stores it in the non-materialized record. If \<open>size'\<close> is not
  the value \<open>kUnknownSize\<close> itself then, from then on and while the inode is not
  materialized, every stat returns \<open>size'\<close> at once, asks for nothing and leaves the inode
  as it is; and no event other than the answer to another size request changes the stored
  size.
\<close>

theorem stat_memoizes_size:
  assumes "reachable kUnknownSize w"
      and "\<not> isMaterialized (state w)"
      and "nonMaterializedState (state w) = Some nm"
      and "nm_size nm = kUnknownSize"
      and "size' \<noteq> kUnknownSize"
  shows "stat kUnknownSize env w = (Returned (StatFetchesSize (nm_hash nm) initStatData), w)
         \<and> (\<forall>w1 st. reachable kUnknownSize w1 \<and> \<not> isMaterialized (state w1) \<longrightarrow>
               (\<exists>st' w2. stat_resume w1 st size' = (Returned st', w2) \<and> st_size st' = size'
                   \<and> memoized size' w2 \<and> \<not> isMaterialized (state w2)
                   \<and> reachable kUnknownSize w2))
         \<and> (\<forall>w3 env'. reachable kUnknownSize w3 \<and> \<not> isMaterialized (state w3)
                         \<and> memoized size' w3 \<longrightarrow>
               (\<exists>st'. stat kUnknownSize env' w3 = (Returned (StatReady st'), w3)
                      \<and> st_size st' = size'))
         \<and> (\<forall>w3 env' ev. memoized size' w3 \<and> (\<forall>st s. ev = Stat_resume st s \<longrightarrow> s = size') \<longrightarrow>
               memoized size' (snd (exec kUnknownSize env' ev w3))
               \<or> isMaterialized (state (snd (exec kUnknownSize env' ev w3))))"
proof (intro conjI allI impI)
  show "stat kUnknownSize env w = (Returned (StatFetchesSize (nm_hash nm) initStatData), w)"
    using assms(1-4) by (rule stat_first_fetches)
next
  fix w1 st
  assume "reachable kUnknownSize w1 \<and> \<not> isMaterialized (state w1)"
  then have "reachable kUnknownSize w1" "\<not> isMaterialized (state w1)" by simp_all
  then show "\<exists>st' w2. stat_resume w1 st size' = (Returned st', w2) \<and> st_size st' = size'
                   \<and> memoized size' w2 \<and> \<not> isMaterialized (state w2)
                   \<and> reachable kUnknownSize w2"
    by (rule stat_resume_reachable)
next
  fix w3 env'
  assume "reachable kUnknownSize w3 \<and> \<not> isMaterialized (state w3) \<and> memoized size' w3"
  then have "reachable kUnknownSize w3" "\<not> isMaterialized (state w3)" "memoized size' w3"
    by simp_all
  then have "state_ok (state w3)" "\<not> isMaterialized (state w3)" "memoized size' w3"
    by (simp_all add: reachable_state_ok)
  then show "\<exists>st'. stat kUnknownSize env' w3 = (Returned (StatReady st'), w3)
                      \<and> st_size st' = size'"
    using assms(5) by (rule stat_memoized)
next
  fix w3 env' ev
  assume "memoized size' w3 \<and> (\<forall>st s. ev = Stat_resume st s \<longrightarrow> s = size')"
  then have "memoized size' w3" "\<forall>st s. ev = Stat_resume st s \<longrightarrow> s = size'" by simp_all
  then show "memoized size' (snd (exec kUnknownSize env' ev w3))
             \<or> isMaterialized (state (snd (exec kUnknownSize env' ev w3)))"
    by (rule exec_keeps_memoized)
qed

lemma witness_not_materialized: "\<not> isMaterialized (state witness_inode)"
  by (simp add: witness_inode_state isMaterialized_def)

text \<open>Claim C8 run on a fresh inode and the size 2.\<close>

theorem stat_memoizes_size_witness:
  "reachable witness_unknown_size witness_inode
   \<and> \<not> isMaterialized (state witness_inode)
   \<and> nonMaterializedState (state witness_inode)
       = Some \<lparr>nm_hash = [1], nm_size = witness_unknown_size\<rparr>
   \<and> 2 \<noteq> witness_unknown_size
   \<and> stat witness_unknown_size witness_inode_env witness_inode
       = (Returned (StatFetchesSize [1] initStatData), witness_inode)
   \<and> (\<exists>st' w2. stat_resume witness_inode initStatData 2 = (Returned st', w2) \<and> st_size st' = 2
          \<and> (\<exists>st''. stat witness_unknown_size witness_inode_env w2 = (Returned (StatReady st''), w2)
                 \<and> st_size st'' = 2))"
proof -
  have n: "nonMaterializedState (state witness_inode)
             = Some \<lparr>nm_hash = [1], nm_size = witness_unknown_size\<rparr>"
    by (simp add: witness_inode_state)
  have u: "nm_size \<lparr>nm_hash = [1], nm_size = witness_unknown_size\<rparr> = witness_unknown_size"
    by simp
  have d: "2 \<noteq> witness_unknown_size"
    by (simp add: witness_unknown_size_def)
  note t = stat_memoizes_size [OF witness_inode_reachable witness_not_materialized n u d,
      where env = witness_inode_env]
  have a: "stat witness_unknown_size witness_inode_env witness_inode
       = (Returned (StatFetchesSize [1] initStatData), witness_inode)"
    using t [THEN conjunct1] by simp
  have "reachable witness_unknown_size witness_inode \<and> \<not> isMaterialized (state witness_inode)"
    using witness_inode_reachable witness_not_materialized by simp
  from t [THEN conjunct2, THEN conjunct1, rule_format, OF this, of initStatData]
  obtain st' w2 where b: "stat_resume witness_inode initStatData 2 = (Returned st', w2)"
      "st_size st' = 2" "memoized 2 w2" "\<not> isMaterialized (state w2)"
      "reachable witness_unknown_size w2"
    by auto
  have "reachable witness_unknown_size w2 \<and> \<not> isMaterialized (state w2) \<and> memoized 2 w2"
    using b by simp
  from t [THEN conjunct2, THEN conjunct2, THEN conjunct1, rule_format, OF this, of witness_inode_env]
  obtain st'' where c: "stat witness_unknown_size witness_inode_env w2 = (Returned (StatReady st''), w2)"
      "st_size st'' = 2"
    by auto
  have "\<exists>st' w2. stat_resume witness_inode initStatData 2 = (Returned st', w2) \<and> st_size st' = 2
          \<and> (\<exists>st''. stat witness_unknown_size witness_inode_env w2 = (Returned (StatReady st''), w2)
                 \<and> st_size st'' = 2)"
    using b(1,2) c by blast
  then show ?thesis
    using witness_inode_reachable witness_not_materialized n d a by simp
qed

text \<open>Whatever value stands for the unknown size, a record that holds it makes stat ask
  the object store.\<close>

lemma stat_unknown_size_fetches:
  assumes "reachable kUnknownSize w" "\<not> isMaterialized (state w)" "memoized kUnknownSize w"
  shows "\<exists>h. stat kUnknownSize env w = (Returned (StatFetchesSize h initStatData), w)"
proof -
  obtain nm where nm: "nonMaterializedState (state w) = Some nm" "nm_size nm = kUnknownSize"
    using assms(3) by (auto simp: memoized_def split: option.splits)
  show ?thesis
    using stat_first_fetches [OF assms(1,2) nm] by blast
qed

text \<open>
  Claim C8 as stated, that the size of the first stat is remembered whatever it is, fails
  when the object store answers with the value that stands for an unknown size, here the
  greatest 64-bit number: the continuation stores it, which leaves the size field as it
  was, and the next stat asks the object store again.
\<close>

theorem stat_forgets_sentinel_size:
  "stat witness_unknown_size witness_inode_env witness_inode
     = (Returned (StatFetchesSize [1] initStatData), witness_inode)
   \<and> stat_resume witness_inode initStatData witness_unknown_size
       = (Returned (updateBlockCount (initStatData\<lparr>st_size := witness_unknown_size\<rparr>)),
          witness_inode)
   \<and> stat witness_unknown_size witness_inode_env
        (snd (stat_resume witness_inode initStatData witness_unknown_size))
       = (Returned (StatFetchesSize [1] initStatData), witness_inode)"
proof -
  have a: "stat witness_unknown_size witness_inode_env witness_inode
     = (Returned (StatFetchesSize [1] initStatData), witness_inode)"
    by (simp add: stat_def witness_inode_state isMaterialized_def unlock_def checkInvariants_def)
  have b: "stat_resume witness_inode initStatData witness_unknown_size
       = (Returned (updateBlockCount (initStatData\<lparr>st_size := witness_unknown_size\<rparr>)),
          witness_inode)"
    by (simp add: stat_resume_def witness_inode_def FileInodeState_of_hash_def
        isMaterialized_def unlock_def checkInvariants_def)
  show ?thesis
    using a b by simp
qed

end
